theory Spec2Isabelle
  imports Complex_Main "HOL-Library.Log_Nat"
begin

section \<open>Numbers and colours\<close>

text \<open>
  JavaScript numbers are IEEE doubles. Every finite double is a rational, so finite
  numbers are modelled as \<open>rat\<close>; \<open>NaN\<close> stands for the value every comparison
  against which is false (it is also what \<open>undefined\<close> becomes when it is compared
  with a number). Infinities are not modelled. The arithmetic is exact, except for the
  progress value of the data fetcher, which is rounded as the code rounds it (section
  \<open>Arithmetic in doubles\<close>). Exact arithmetic is the code's wherever the exact results
  are doubles: in the colour mapper at the thresholds and at the midpoints of adjacent
  thresholds, which its properties are about (at other temperatures a floor of the code
  can be one below the exact one: at 45.5 the code's blue channel is 89, the exact
  one 90).
\<close>

datatype jsnum = NaN | Num rat

text \<open>\<open>temp <= x\<close> and \<open>temp >= x\<close> for a number \<open>x\<close> of the colour table.\<close>

fun js_le :: "jsnum \<Rightarrow> rat \<Rightarrow> bool" where
  "js_le NaN x = False"
| "js_le (Num t) x = (t \<le> x)"

fun js_ge :: "jsnum \<Rightarrow> rat \<Rightarrow> bool" where
  "js_ge NaN x = False"
| "js_ge (Num t) x = (t \<ge> x)"

text \<open>
  The three shapes of string \<open>getTemperatureColor\<close> returns, one constructor per
  template of the source:
  \<^item> \<open>Rgba_join cs\<close> is \<^verbatim>\<open>`rgba(${cs.join(',')})`\<close>,
  \<^item> \<open>Rgba r g b a\<close> is \<^verbatim>\<open>`rgba(${r}, ${g}, ${b}, ${a})`\<close>,
  \<^item> \<open>Transparent\<close> is \<^verbatim>\<open>'transparent'\<close>.
  \<open>channels\<close> reads the colour a string denotes: the two \<open>rgba\<close> templates differ
  only in the blank after each comma.
\<close>

datatype css_color = Rgba_join "rat list" | Rgba rat rat rat rat | Transparent

fun channels :: "css_color \<Rightarrow> rat list option" where
  "channels (Rgba_join cs) = Some cs"
| "channels (Rgba r g b a) = Some [r, g, b, a]"
| "channels Transparent = None"

type_synonym color_stop = "rat \<times> rat list"

text \<open>The entries of the \<open>Map\<close>, in insertion order (the keys are distinct).\<close>

definition colorTable :: "color_stop list" where
  "colorTable =
    [(-20, [138, 43, 226, 4/5]),
     (-10, [75, 0, 130, 4/5]),
     (0, [0, 0, 255, 4/5]),
     (10, [0, 100, 255, 4/5]),
     (20, [0, 150, 255, 4/5]),
     (30, [0, 200, 255, 4/5]),
     (40, [0, 255, 200, 4/5]),
     (50, [0, 255, 0, 4/5]),
     (60, [173, 255, 47, 4/5]),
     (70, [255, 255, 0, 4/5]),
     (80, [255, 200, 0, 4/5]),
     (90, [255, 150, 0, 4/5]),
     (100, [255, 69, 0, 4/5]),
     (110, [255, 0, 0, 4/5]),
     (120, [139, 0, 0, 4/5])]"

text \<open>
  The body of the interpolation branch: \<open>color1.map((c, j) => ...)\<close> with the alpha
  channel (index 3) left fractional and the others floored.
\<close>

definition interpolate :: "rat \<Rightarrow> color_stop \<Rightarrow> color_stop \<Rightarrow> css_color" where
  "interpolate temp stop1 stop2 =
    (let temp1 = fst stop1; color1 = snd stop1;
         temp2 = fst stop2; color2 = snd stop2;
         factor = (temp - temp1) / (temp2 - temp1);
         color = map (\<lambda>(c, j). if j = 3 then c + (color2 ! j - c) * factor
                                 else of_int \<lfloor>c + (color2 ! j - c) * factor\<rfloor>)
                     (zip color1 [0..<length color1])
     in Rgba (color ! 0) (color ! 1) (color ! 2) (color ! 3))"

text \<open>
  The \<open>for\<close> loop over \<open>i\<close>, as a recursion over the stops from index \<open>i\<close> on: the
  first pair whose upper threshold is not below \<open>temp\<close> is interpolated; when no test
  succeeds the loop ends and the function returns \<open>'transparent'\<close>. A test that
  succeeds has a finite \<open>temp\<close>, since \<open>js_le NaN\<close> is false.
\<close>

fun interpolate_loop :: "jsnum \<Rightarrow> color_stop list \<Rightarrow> css_color" where
  "interpolate_loop temp (stop1 # stop2 # rest) =
    (if js_le temp (fst stop2)
     then (case temp of Num t \<Rightarrow> interpolate t stop1 stop2 | NaN \<Rightarrow> Transparent)
     else interpolate_loop temp (stop2 # rest))"
| "interpolate_loop temp stops = Transparent"

definition getTemperatureColor :: "jsnum \<Rightarrow> css_color" where
  "getTemperatureColor temp =
    (let colorStops = colorTable in
     if js_le temp (fst (colorStops ! 0)) then Rgba_join (snd (colorStops ! 0))
     else if js_ge temp (fst (colorStops ! (length colorStops - 1)))
       then Rgba_join (snd (colorStops ! (length colorStops - 1)))
     else interpolate_loop temp colorStops)"

section \<open>Formatting coordinates\<close>

type_synonym coord = "rat \<times> rat"  \<comment> \<open>the array \<open>[latitude, longitude]\<close>\<close>

definition digit :: "nat \<Rightarrow> char" where
  "digit d = ''0123456789'' ! d"

text \<open>The decimal digits of a natural number.\<close>

function decimal :: "nat \<Rightarrow> string" where
  "decimal n = (if n < 10 then [digit n] else decimal (n div 10) @ [digit (n mod 10)])"
  by pat_completeness auto
termination
  by (relation "measure (\<lambda>n. n)") auto

declare decimal.simps [simp del]

text \<open>
  \<open>x.toFixed(4)\<close> as ECMAScript defines it for \<open>|x| < 10^21\<close> (beyond that it
  prints an exponent, which no coordinate reaches): the sign, then the integer \<open>n\<close>
  nearest to \<open>|x| * 10^4\<close> (the larger one of two), padded with zeros to five digits
  at least, with a point before the last four.
\<close>

definition toFixed4 :: "rat \<Rightarrow> string" where
  "toFixed4 x =
    (let n = nat \<lfloor>\<bar>x\<bar> * 10000 + 1 / 2\<rfloor>;
         m = decimal n;
         m = replicate (5 - length m) (CHR ''0'') @ m
     in (if x < 0 then ''-'' else []) @
        take (length m - 4) m @ ''.'' @ drop (length m - 4) m)"

text \<open>\<open>strs.join(',')\<close>.\<close>

fun join :: "string list \<Rightarrow> string" where
  "join [] = []"
| "join [s] = s"
| "join (s # ss) = s @ '','' @ join ss"

section \<open>JSON values\<close>

text \<open>
  What \<open>response.json()\<close> can deliver. An object keeps its members in the order of the
  text; a name that occurs twice has the value of its last occurrence.
\<close>

datatype json =
    JNull
  | JBool bool
  | JNum rat
  | JStr string
  | JArr "json list"
  | JObj "(string \<times> json) list"

datatype js_error = FetchFailed | HttpError nat | SyntaxError | TypeError | CallbackError

text \<open>
  A value that may be \<open>undefined\<close> is a \<open>json option\<close>, \<open>None\<close> being
  \<open>undefined\<close>. \<open>truthy\<close> is the test \<open>&&\<close> and \<open>if\<close> apply: an empty array
  and an empty object are truthy.
\<close>

fun truthy :: "json option \<Rightarrow> bool" where
  "truthy None = False"
| "truthy (Some JNull) = False"
| "truthy (Some (JBool b)) = b"
| "truthy (Some (JNum r)) = (r \<noteq> 0)"
| "truthy (Some (JStr s)) = (s \<noteq> [])"
| "truthy (Some (JArr vs)) = True"
| "truthy (Some (JObj members)) = True"

text \<open>
  \<open>v.name\<close> for a name that is no built-in property (the code reads \<open>hourly\<close> and
  \<open>temperature_2m\<close>): a \<open>TypeError\<close> on \<open>null\<close> and \<open>undefined\<close>, the member
  of an object, \<open>undefined\<close> on everything else.
\<close>

fun get_prop :: "json option \<Rightarrow> string \<Rightarrow> js_error + json option" where
  "get_prop None name = Inl TypeError"
| "get_prop (Some JNull) name = Inl TypeError"
| "get_prop (Some (JObj members)) name = Inr (map_of (rev members) name)"
| "get_prop (Some v) name = Inr None"

section \<open>Arithmetic in doubles\<close>

text \<open>
  An arithmetic operation delivers the double nearest to its exact result, a tie going
  to the double with the even significand. For \<open>x\<close> other than 0, \<open>exponent x\<close> is
  the integer \<open>e\<close> with \<open>2^e \<le> |x| < 2^(e+1)\<close>, computed from the lengths in bits of
  numerator and denominator; the doubles from \<open>2^e\<close> to \<open>2^(e+1)\<close> are the multiples
  of \<open>2^(e-52)\<close> (a significand of 53 bits), and those below \<open>2^-1022\<close>, the
  subnormal ones, the multiples of \<open>2^-1074\<close>. The overflow to an infinity, from
  \<open>2^1024\<close> on, is not modelled.
\<close>

definition exponent :: "rat \<Rightarrow> int" where
  "exponent x =
    (case quotient_of \<bar>x\<bar> of
       (a, b) \<Rightarrow> let e = bitlen a - bitlen b in if \<bar>x\<bar> < 2 powi e then e - 1 else e)"

definition round_half_even :: "rat \<Rightarrow> int" where
  "round_half_even m =
    (let f = \<lfloor>m\<rfloor>
     in if m - of_int f < 1 / 2 then f
        else if 1 / 2 < m - of_int f then f + 1
        else if even f then f else f + 1)"

definition double :: "rat \<Rightarrow> rat" where
  "double x =
    (let ulp = 2 powi (max (exponent x) (- 1022) - 52)
     in of_int (round_half_even (x / ulp)) * ulp)"

section \<open>The data fetcher\<close>

record WeatherRecord =
  coords :: "coord option"  \<comment> \<open>\<open>chunk[index]\<close>, \<open>None\<close> when it is \<open>undefined\<close>\<close>
  temperatures :: json

text \<open>\<open>xs[i]\<close>, which is \<open>undefined\<close> out of range.\<close>

definition at_index :: "'a list \<Rightarrow> nat \<Rightarrow> 'a option" where
  "at_index xs i = (if i < length xs then Some (xs ! i) else None)"

text \<open>
  The value of \<open>point.hourly && point.hourly.temperature_2m\<close>: an exception when
  \<open>point\<close> is \<open>null\<close>, otherwise \<open>Some t\<close> with the series \<open>t\<close> when the test
  passes, and \<open>None\<close> when it does not.
\<close>

definition hourly_series :: "json \<Rightarrow> js_error + json option" where
  "hourly_series point =
    (case get_prop (Some point) ''hourly'' of
       Inl e \<Rightarrow> Inl e
     | Inr hourly \<Rightarrow>
         if truthy hourly then
           (case get_prop hourly ''temperature_2m'' of
              Inl e \<Rightarrow> Inl e
            | Inr t \<Rightarrow> Inr (if truthy t then t else None))
         else Inr None)"

text \<open>
  \<open>data.forEach((point, index) => ...)\<close> from \<open>index\<close> on. An exception leaves the
  loop; the records pushed before it stay in \<open>this.weatherData\<close>.
\<close>

fun forEach_point ::
  "coord list \<Rightarrow> nat \<Rightarrow> json list \<Rightarrow> WeatherRecord list \<Rightarrow> WeatherRecord list \<times> js_error option"
where
  "forEach_point chunk index [] weatherData = (weatherData, None)"
| "forEach_point chunk index (point # points) weatherData =
    (case hourly_series point of
       Inl e \<Rightarrow> (weatherData, Some e)
     | Inr None \<Rightarrow> forEach_point chunk (Suc index) points weatherData
     | Inr (Some t) \<Rightarrow>
         forEach_point chunk (Suc index) points
           (weatherData @ [\<lparr>coords = at_index chunk index, temperatures = t\<rparr>]))"

text \<open>\<open>xs.slice(i, j)\<close> for \<open>0 \<le> i \<le> j\<close>.\<close>

definition slice :: "'a list \<Rightarrow> nat \<Rightarrow> nat \<Rightarrow> 'a list" where
  "slice xs i j = take (j - i) (drop i xs)"

definition maxPointsPerRequest :: nat where
  "maxPointsPerRequest = 100"

text \<open>The loop that splits the coordinates, from index \<open>i\<close> on.\<close>

function split_chunks :: "nat \<Rightarrow> 'a list \<Rightarrow> 'a list list \<Rightarrow> 'a list list" where
  "split_chunks i coordinates chunks =
    (if i < length coordinates
     then split_chunks (i + maxPointsPerRequest) coordinates
            (chunks @ [slice coordinates i (i + maxPointsPerRequest)])
     else chunks)"
  by pat_completeness auto
termination
  by (relation "measure (\<lambda>(i, coordinates, chunks). length coordinates - i)")
     (auto simp: maxPointsPerRequest_def)

declare split_chunks.simps [simp del]

text \<open>The request of one chunk.\<close>

definition request_url :: "string \<Rightarrow> coord list \<Rightarrow> string" where
  "request_url key chunk =
    (let lats = join (map (\<lambda>coord. toFixed4 (fst coord)) chunk);
         lons = join (map (\<lambda>coord. toFixed4 (snd coord)) chunk)
     in ''https://customer-api.open-meteo.com/v1/forecast?latitude='' @ lats @
        ''&longitude='' @ lons @
        ''&hourly=temperature_2m&temperature_unit=fahrenheit&forecast_days=1'' @
        ''&models=gfs_graphcast025&apikey='' @ key)"

text \<open>
  The world outside: \<open>fetch(url)\<close> either rejects or delivers a response with a
  status and a body, which \<open>response.json()\<close> parses (\<open>None\<close>: the body is no
  JSON text, and \<open>json()\<close> rejects). The network answers the \<open>n\<close>-th request of a
  run (counted from 0) to \<open>url\<close> with \<open>net n url\<close>, so the same chunk may fail
  once and succeed later.
\<close>

datatype response = Rejected | Response nat "json option"

type_synonym network = "nat \<Rightarrow> string \<Rightarrow> response"

text \<open>
  The progress callback is a function of the caller's and may throw: its \<open>k\<close>-th call
  (counted from 0), with the value \<open>p\<close>, returns normally when \<open>updateProgress k p\<close>
  is \<open>None\<close> and throws \<open>e\<close> when it is \<open>Some e\<close>.
\<close>

type_synonym callback = "nat \<Rightarrow> rat \<Rightarrow> js_error option"

definition ok :: "nat \<Rightarrow> bool" where
  "ok status = (200 \<le> status \<and> status \<le> 299)"

text \<open>
  What the routine does to the outside, in order: a request, a line on the console, a
  call of the progress callback with a value (whether the call returns or throws), a
  timer of so many milliseconds that the routine awaits.
\<close>

datatype event =
    Fetch string
  | ConsoleError js_error
  | UpdateProgress rat
  | SetTimeout nat

fun is_Fetch :: "event \<Rightarrow> bool" where
  "is_Fetch (Fetch url) = True"
| "is_Fetch e = False"

fun is_UpdateProgress :: "event \<Rightarrow> bool" where
  "is_UpdateProgress (UpdateProgress p) = True"
| "is_UpdateProgress e = False"

record WeatherDataManager =
  weatherData :: "WeatherRecord list"
  apiKey :: string

text \<open>The instance together with the local \<open>processedChunks\<close> and the events so far.\<close>

record fetch_state = WeatherDataManager +
  processedChunks :: nat
  trace :: "event list"

text \<open>
  The body of \<open>try\<close> for one chunk: the state it leaves, and the exception that
  ended it, if any. The quotient and the product of
  \<open>processedChunks / totalChunks * 100\<close> are rounded to doubles (the two counters are
  integers, which are doubles as they are). The callback is called inside the
  \<open>try\<close>, after \<open>processedChunks++\<close>; when it throws, the counter stays incremented
  and the timer is not reached.
\<close>

definition try_chunk ::
  "network \<Rightarrow> callback \<Rightarrow> nat \<Rightarrow> fetch_state \<Rightarrow> coord list
   \<Rightarrow> fetch_state \<times> js_error option"
where
  "try_chunk net updateProgress totalChunks s chunk =
    (let url = request_url (apiKey s) chunk;
         response = net (length (filter is_Fetch (trace s))) url;
         s = s\<lparr>trace := trace s @ [Fetch url]\<rparr>
     in case response of
          Rejected \<Rightarrow> (s, Some FetchFailed)
        | Response status body \<Rightarrow>
            if \<not> ok status then (s, Some (HttpError status))
            else
              (case body of
                 None \<Rightarrow> (s, Some SyntaxError)
               | Some data \<Rightarrow>
                   (case (case data of
                            JArr points \<Rightarrow> forEach_point chunk 0 points (weatherData s)
                          | _ \<Rightarrow> (weatherData s, None)) of
                      (records, Some e) \<Rightarrow> (s\<lparr>weatherData := records\<rparr>, Some e)
                    | (records, None) \<Rightarrow>
                        (let processed = Suc (processedChunks s);
                             progress = double (double (of_nat processed / of_nat totalChunks) * 100);
                             calls = length (filter is_UpdateProgress (trace s));
                             s = s\<lparr>weatherData := records,
                                   processedChunks := processed,
                                   trace := trace s @ [UpdateProgress progress]\<rparr>
                         in case updateProgress calls progress of
                              Some e \<Rightarrow> (s, Some e)
                            | None \<Rightarrow> (s\<lparr>trace := trace s @ [SetTimeout 100]\<rparr>, None)))))"

text \<open>
  \<open>for (const chunk of chunks)\<close> over an array that grows while it is iterated:
  the last argument is the part of \<open>chunks\<close> not yet visited, and
  \<open>chunks.push(chunk)\<close> in the \<open>catch\<close> block appends to it. The loop may run for
  ever, so it takes fuel, one unit per iteration, and returns the state it has reached
  and the chunks still to visit: the loop has ended if and only if none is left.
\<close>

fun fetch_loop ::
  "nat \<Rightarrow> network \<Rightarrow> callback \<Rightarrow> nat \<Rightarrow> fetch_state \<Rightarrow> coord list list
   \<Rightarrow> fetch_state \<times> coord list list"
where
  "fetch_loop 0 net updateProgress totalChunks s chunks = (s, chunks)"
| "fetch_loop (Suc fuel) net updateProgress totalChunks s [] = (s, [])"
| "fetch_loop (Suc fuel) net updateProgress totalChunks s (chunk # rest) =
    (case try_chunk net updateProgress totalChunks s chunk of
       (s', None) \<Rightarrow> fetch_loop fuel net updateProgress totalChunks s' rest
     | (s', Some error) \<Rightarrow>
         fetch_loop fuel net updateProgress totalChunks
           (s'\<lparr>trace := trace s' @ [ConsoleError error]\<rparr>) (rest @ [chunk]))"

text \<open>
  The run of \<open>fetchData(coordinates, updateProgress)\<close> for so many iterations of its
  loop: the state reached and the chunks still to visit.
\<close>

definition fetch_run ::
  "nat \<Rightarrow> network \<Rightarrow> WeatherDataManager \<Rightarrow> coord list \<Rightarrow> callback
   \<Rightarrow> fetch_state \<times> coord list list"
where
  "fetch_run fuel net this coordinates updateProgress =
    (let chunks = split_chunks 0 coordinates [];
         totalChunks = length chunks;
         start = \<lparr>weatherData = weatherData this, apiKey = apiKey this,
                  processedChunks = 0, trace = []\<rparr>
     in fetch_loop fuel net updateProgress totalChunks start chunks)"

text \<open>
  \<open>fetchData\<close>: \<open>None\<close> when the fuel does not suffice, otherwise the final state,
  whose \<open>weatherData\<close> is the value returned.
\<close>

definition fetchData ::
  "nat \<Rightarrow> network \<Rightarrow> WeatherDataManager \<Rightarrow> coord list \<Rightarrow> callback
   \<Rightarrow> fetch_state option"
where
  "fetchData fuel net this coordinates updateProgress =
    (case fetch_run fuel net this coordinates updateProgress of
       (s, []) \<Rightarrow> Some s
     | (s, chunk # rest) \<Rightarrow> None)"

section \<open>The renderer\<close>

text \<open>
  The Leaflet map as the renderer uses it: the size of its container, the north-west
  corner of its bounds, and its two projections. They are parameters of the model.
\<close>

record map_view =
  getSize :: "rat \<times> rat"
  getNorth :: rat
  getWest :: rat
  latLngToContainerPoint :: "coord \<Rightarrow> rat \<times> rat"
  containerPointToLayerPoint :: "rat \<times> rat \<Rightarrow> rat \<times> rat"

text \<open>One call of \<open>fillRect\<close>, with the \<open>fillStyle\<close> in force.\<close>

record fill_rect =
  fillStyle :: css_color
  rect_x :: rat
  rect_y :: rat
  rect_width :: rat
  rect_height :: rat

record canvas =
  canvas_width :: rat
  canvas_height :: rat
  canvas_position :: "rat \<times> rat"
  filled :: "fill_rect list"

record WeatherRenderer =
  leaflet_map :: map_view
  the_canvas :: canvas
  shownData :: "WeatherRecord list"  \<comment> \<open>the renderer's \<open>this.weatherData\<close>\<close>
  currentHour :: nat

text \<open>
  \<open>v[hour]\<close> on a JSON value: a \<open>TypeError\<close> on \<open>null\<close>, the element of an array,
  the character of a string, the member of an object whose name is the decimal numeral
  of \<open>hour\<close>, and \<open>undefined\<close> wherever there is none.
\<close>

fun element_at :: "json \<Rightarrow> nat \<Rightarrow> js_error + json option" where
  "element_at JNull hour = Inl TypeError"
| "element_at (JArr vs) hour = Inr (at_index vs hour)"
| "element_at (JStr s) hour = Inr (map_option (\<lambda>c. JStr [c]) (at_index s hour))"
| "element_at (JObj members) hour = Inr (map_of (rev members) (decimal hour))"
| "element_at v hour = Inr None"

text \<open>
  The number a value becomes where \<open>getTemperatureColor\<close> compares it and computes
  with it. A string or an array is converted by parsing its text; that conversion is the
  parameter \<open>parse\<close>.
\<close>

fun ToNumber :: "(json \<Rightarrow> jsnum) \<Rightarrow> json option \<Rightarrow> jsnum" where
  "ToNumber parse None = NaN"
| "ToNumber parse (Some JNull) = Num 0"
| "ToNumber parse (Some (JBool b)) = Num (if b then 1 else 0)"
| "ToNumber parse (Some (JNum r)) = Num r"
| "ToNumber parse (Some (JObj members)) = NaN"
| "ToNumber parse (Some v) = parse v"

definition updateCanvasSize :: "WeatherRenderer \<Rightarrow> WeatherRenderer" where
  "updateCanvasSize this =
    (let size = getSize (leaflet_map this);
         topLeft = containerPointToLayerPoint (leaflet_map this) (0, 0)
     in this\<lparr>the_canvas := (the_canvas this)\<lparr>canvas_width := fst size,
                                                 canvas_height := snd size,
                                                 canvas_position := topLeft\<rparr>\<rparr>)"

text \<open>
  \<open>this.weatherData.forEach(point => ...)\<close> in \<open>draw\<close>: the rectangles filled so far
  are the last argument. An exception (a record without temperatures or coordinates)
  leaves the loop and \<open>draw\<close>.
\<close>

fun forEach_record ::
  "(json \<Rightarrow> jsnum) \<Rightarrow> map_view \<Rightarrow> nat \<Rightarrow> rat \<Rightarrow> rat \<Rightarrow> WeatherRecord list \<Rightarrow> fill_rect list
   \<Rightarrow> fill_rect list \<times> js_error option"
where
  "forEach_record parse m hour rectWidth rectHeight [] rects = (rects, None)"
| "forEach_record parse m hour rectWidth rectHeight (point # points) rects =
    (case element_at (temperatures point) hour of
       Inl e \<Rightarrow> (rects, Some e)
     | Inr temp \<Rightarrow>
         (let color = getTemperatureColor (ToNumber parse temp) in
          case coords point of
            None \<Rightarrow> (rects, Some TypeError)
          | Some c \<Rightarrow>
              (let pixelPoint = latLngToContainerPoint m (fst c, snd c)
               in forEach_record parse m hour rectWidth rectHeight points
                    (rects @ [\<lparr>fillStyle = color,
                               rect_x = fst pixelPoint - rectWidth / 2,
                               rect_y = snd pixelPoint - rectHeight / 2,
                               rect_width = rectWidth,
                               rect_height = rectHeight\<rparr>]))))"

definition draw :: "(json \<Rightarrow> jsnum) \<Rightarrow> WeatherRenderer \<Rightarrow> WeatherRenderer \<times> js_error option" where
  "draw parse this =
    (let this = updateCanvasSize this;
         m = leaflet_map this;
         cleared = (the_canvas this)\<lparr>filled := []\<rparr>;
         topLeft = latLngToContainerPoint m (getNorth m, getWest m);
         bottomRight = latLngToContainerPoint m (getNorth m - 1 / 2, getWest m + 1 / 2);
         rectWidth = \<bar>fst bottomRight - fst topLeft\<bar>;
         rectHeight = \<bar>snd bottomRight - snd topLeft\<bar>
     in case forEach_record parse m (currentHour this) rectWidth rectHeight (shownData this) [] of
          (rects, thrown) \<Rightarrow> (this\<lparr>the_canvas := cleared\<lparr>filled := rects\<rparr>\<rparr>, thrown))"

definition render ::
  "(json \<Rightarrow> jsnum) \<Rightarrow> WeatherRenderer \<Rightarrow> WeatherRecord list \<Rightarrow> nat \<Rightarrow> WeatherRenderer \<times> js_error option"
where
  "render parse this data hour = draw parse (this\<lparr>shownData := data, currentHour := hour\<rparr>)"

text \<open>Where and how large a rectangle is, without its colour.\<close>

definition geometry :: "fill_rect \<Rightarrow> rat \<times> rat \<times> rat \<times> rat" where
  "geometry r = (rect_x r, rect_y r, rect_width r, rect_height r)"

section \<open>The grid generator\<close>

definition latStart :: rat where "latStart = 24"
definition latEnd :: rat where "latEnd = 50"
definition lonStart :: rat where "lonStart = -126"
definition lonEnd :: rat where "lonEnd = -66"
definition step :: rat where "step = 1 / 4"

definition Math_round :: "rat \<Rightarrow> rat" where
  "Math_round x = of_int \<lfloor>x + 1 / 2\<rfloor>"

text \<open>The key of the set \<open>seen\<close>.\<close>

definition coord_key :: "coord \<Rightarrow> string" where
  "coord_key point = toFixed4 (fst point) @ '','' @ toFixed4 (snd point)"

text \<open>
  The inner loop over \<open>lon\<close>. The sums \<open>lon += step\<close> are exact in floating point
  (every value is a multiple of 0.25 of small magnitude), as they are here.
\<close>

function lon_loop :: "rat \<Rightarrow> rat \<Rightarrow> coord list \<Rightarrow> string set \<Rightarrow> coord list \<times> string set" where
  "lon_loop lat lon row seen =
    (if lon \<le> lonEnd then
       (let key = coord_key (lat, lon) in
        if key \<notin> seen
        then lon_loop lat (lon + step)
               (row @ [(Math_round (lat * 10000) / 10000, Math_round (lon * 10000) / 10000)])
               (insert key seen)
        else lon_loop lat (lon + step) row seen)
     else (row, seen))"
  by pat_completeness auto
termination
proof (relation "measure (\<lambda>(lat, lon, row, seen). nat (\<lfloor>(lonEnd - lon) / step\<rfloor> + 1))")
  show "wf (measure (\<lambda>(lat, lon, row, seen). nat (\<lfloor>(lonEnd - lon) / step\<rfloor> + 1)))"
    by simp
next
  fix lat lon :: rat
  assume "lon \<le> lonEnd"
  then have "0 \<le> \<lfloor>(lonEnd - lon) / step\<rfloor>"
    by (simp add: step_def)
  moreover have "(lonEnd - (lon + step)) / step = (lonEnd - lon) / step - 1"
    by (simp add: step_def algebra_simps)
  then have "\<lfloor>(lonEnd - (lon + step)) / step\<rfloor> = \<lfloor>(lonEnd - lon) / step\<rfloor> - 1"
    by (simp only: floor_diff_one)
  ultimately have "nat (\<lfloor>(lonEnd - (lon + step)) / step\<rfloor> + 1) < nat (\<lfloor>(lonEnd - lon) / step\<rfloor> + 1)"
    by linarith
  then show "\<And>row seen key. ((lat, lon + step, row @ [(Math_round (lat * 10000) / 10000, Math_round (lon * 10000) / 10000)], insert key seen), (lat, lon, row, seen))
      \<in> measure (\<lambda>(lat, lon, row, seen). nat (\<lfloor>(lonEnd - lon) / step\<rfloor> + 1))"
    and "\<And>row seen. ((lat, lon + step, row, seen), (lat, lon, row, seen))
      \<in> measure (\<lambda>(lat, lon, row, seen). nat (\<lfloor>(lonEnd - lon) / step\<rfloor> + 1))"
    by simp_all
qed

declare lon_loop.simps [simp del]

text \<open>
  The outer loop over \<open>lat\<close>. \<open>row.sort((a, b) => a[1] - b[1])\<close> is a stable sort by
  longitude.
\<close>

function lat_loop :: "rat \<Rightarrow> coord list \<Rightarrow> string set \<Rightarrow> coord list \<times> string set" where
  "lat_loop lat grid seen =
    (if lat \<le> latEnd then
       (case lon_loop lat lonStart [] seen of
          (row, seen') \<Rightarrow> lat_loop (lat + step) (grid @ sort_key snd row) seen')
     else (grid, seen))"
  by pat_completeness auto
termination
proof (relation "measure (\<lambda>(lat, grid, seen). nat (\<lfloor>(latEnd - lat) / step\<rfloor> + 1))")
  show "wf (measure (\<lambda>(lat, grid, seen). nat (\<lfloor>(latEnd - lat) / step\<rfloor> + 1)))"
    by simp
next
  fix lat :: rat and grid :: "coord list" and seen seen' :: "string set" and row :: "coord list"
  assume "lat \<le> latEnd"
  then have "0 \<le> \<lfloor>(latEnd - lat) / step\<rfloor>"
    by (simp add: step_def)
  moreover have "(latEnd - (lat + step)) / step = (latEnd - lat) / step - 1"
    by (simp add: step_def algebra_simps)
  then have "\<lfloor>(latEnd - (lat + step)) / step\<rfloor> = \<lfloor>(latEnd - lat) / step\<rfloor> - 1"
    by (simp only: floor_diff_one)
  ultimately have "nat (\<lfloor>(latEnd - (lat + step)) / step\<rfloor> + 1) < nat (\<lfloor>(latEnd - lat) / step\<rfloor> + 1)"
    by linarith
  then show "((lat + step, grid @ sort_key snd row, seen'), (lat, grid, seen))
      \<in> measure (\<lambda>(lat, grid, seen). nat (\<lfloor>(latEnd - lat) / step\<rfloor> + 1))"
    by simp
qed

declare lat_loop.simps [simp del]

definition extraPoints :: "coord list" where
  "extraPoints =
    [(91/2, -87), (93/2, -169/2), (87/2, -165/2), (85/2, -163/2), (44, -153/2),
     (49, -123), (97/2, -120), (95/2, -95), (45, -83), (89/2, -75),
     (97/2, -249/2), (81/2, -124), (25, -81), (44, -67)]"

text \<open>The body of \<open>extraPoints.forEach\<close>, on the pair of \<open>grid\<close> and \<open>seen\<close>.\<close>

definition add_extra :: "coord list \<times> string set \<Rightarrow> coord \<Rightarrow> coord list \<times> string set" where
  "add_extra gs point =
    (let key = coord_key point in
     if key \<notin> snd gs then (fst gs @ [point], insert key (snd gs)) else gs)"

definition generateOptimizedGrid :: "coord list" where
  "generateOptimizedGrid = fst (foldl add_extra (lat_loop latStart [] {}) extraPoints)"

section \<open>Notions the properties are stated with\<close>

text \<open>\<open>x\<close> lies strictly between \<open>a\<close> and \<open>b\<close>, whichever of the two is larger.\<close>

definition strictly_between :: "rat \<Rightarrow> rat \<Rightarrow> rat \<Rightarrow> bool" where
  "strictly_between a b x = ((a < x \<and> x < b) \<or> (b < x \<and> x < a))"

text \<open>A series that is an array with at least one element.\<close>

fun nonempty_array :: "json \<Rightarrow> bool" where
  "nonempty_array (JArr (v # vs)) = True"
| "nonempty_array v = False"

text \<open>
  The responses on which the body of \<open>try\<close> throws before it reaches the callback:
  a rejected request, a status outside 200 to 299, a body that is no JSON, and an array
  with a \<open>null\<close> element (\<open>point.hourly\<close> on \<open>null\<close>). Lemma \<open>try_chunk_error\<close>
  below shows that these, and a callback that throws, are exactly the cases.
\<close>

fun throws :: "response \<Rightarrow> bool" where
  "throws Rejected = True"
| "throws (Response status body) =
    (\<not> ok status \<or>
     (case body of
        None \<Rightarrow> True
      | Some (JArr points) \<Rightarrow> JNull \<in> set points
      | Some v \<Rightarrow> False))"

text \<open>The values passed to the progress callback, in order.\<close>

fun progress_values :: "event list \<Rightarrow> rat list" where
  "progress_values [] = []"
| "progress_values (UpdateProgress p # events) = p # progress_values events"
| "progress_values (e # events) = progress_values events"

text \<open>
  A trace made of attempts of two shapes only: a request, a progress report and a timer
  of 100 ms; or a request and a console error, with no timer.
\<close>

fun attempts_only :: "event list \<Rightarrow> bool" where
  "attempts_only [] = True"
| "attempts_only (Fetch url # UpdateProgress p # SetTimeout ms # events) =
    (ms = 100 \<and> attempts_only events)"
| "attempts_only (Fetch url # ConsoleError e # events) = attempts_only events"
| "attempts_only events = False"

text \<open>
  The same with a third shape, that of an attempt whose callback threw: a request, a
  progress report and a console error, with no timer.
\<close>

fun attempts_any :: "event list \<Rightarrow> bool" where
  "attempts_any [] = True"
| "attempts_any (Fetch url # UpdateProgress p # SetTimeout ms # events) =
    (ms = 100 \<and> attempts_any events)"
| "attempts_any (Fetch url # UpdateProgress p # ConsoleError e # events) = attempts_any events"
| "attempts_any (Fetch url # ConsoleError e # events) = attempts_any events"
| "attempts_any events = False"

text \<open>Every request but the first is started right after a timer of 100 ms.\<close>

fun delay_before_each_request :: "event list \<Rightarrow> bool" where
  "delay_before_each_request [] = True"
| "delay_before_each_request [e] = True"
| "delay_before_each_request (e # Fetch url # events) =
    (e = SetTimeout 100 \<and> delay_before_each_request (Fetch url # events))"
| "delay_before_each_request (e # e' # events) = delay_before_each_request (e' # events)"

text \<open>The temperature halfway between the thresholds of the anchors \<open>i\<close> and \<open>i + 1\<close>.\<close>

definition adjacent_midpoint :: "nat \<Rightarrow> rat" where
  "adjacent_midpoint i = (fst (colorTable ! i) + fst (colorTable ! Suc i)) / 2"

text \<open>
  The value \<open>k / totalChunks * 100\<close> as the code computes it: the quotient rounded to
  a double, and its product with 100 rounded again.
\<close>

definition progress_of :: "nat \<Rightarrow> nat \<Rightarrow> rat" where
  "progress_of totalChunks k = double (double (of_nat k / of_nat totalChunks) * 100)"

text \<open>For examples: a callback that never throws, and a callback whose first call throws.\<close>

definition quiet :: callback where
  "quiet k p = None"

definition throws_once :: callback where
  "throws_once k p = (if k = 0 then Some CallbackError else None)"

text \<open>
  A network for examples: its first request is rejected, every later one is answered
  with status 200 and an empty array. And a manager with no data yet.
\<close>

definition flaky :: network where
  "flaky n url = (if n = 0 then Rejected else Response 200 (Some (JArr [])))"

definition example_manager :: WeatherDataManager where
  "example_manager = \<lparr>weatherData = [], apiKey = ''key''\<rparr>"


text \<open>A network that answers every request with status 200 and an empty array.\<close>

definition always_empty :: network where
  "always_empty n url = Response 200 (Some (JArr []))"

text \<open>
  The properties of the fetcher's records are stated with the member of a JSON object
  (there is none in any other value), and with the value of \<open>hourly.temperature_2m\<close>
  of a response element, where there is one.
\<close>

definition member :: "json \<Rightarrow> string \<Rightarrow> json option" where
  "member v name = (case v of JObj members \<Rightarrow> map_of (rev members) name | _ \<Rightarrow> None)"

definition temperature_series :: "json \<Rightarrow> json option" where
  "temperature_series point =
    (case member point ''hourly'' of
       None \<Rightarrow> None
     | Some hourly \<Rightarrow> member hourly ''temperature_2m'')"

text \<open>
  The record for the element \<open>point\<close> at index \<open>i\<close> of a response to \<open>chunk\<close>: one
  whenever the series is there and truthy, with the coordinate \<open>chunk[i]\<close>.
\<close>

definition record_at :: "coord list \<Rightarrow> nat \<times> json \<Rightarrow> WeatherRecord option" where
  "record_at chunk ip =
    (case temperature_series (snd ip) of
       None \<Rightarrow> None
     | Some t \<Rightarrow>
         if truthy (Some t) then Some \<lparr>coords = at_index chunk (fst ip), temperatures = t\<rparr>
         else None)"

text \<open>
  Two more networks for examples. The first answers with one element whose series is the
  empty array. The second answers with four elements: a series of two values, no
  \<open>hourly\<close> at all, a series that is \<open>null\<close>, and an empty series.
\<close>

definition empty_series :: network where
  "empty_series n url =
    Response 200 (Some (JArr [JObj [(''hourly'', JObj [(''temperature_2m'', JArr [])])]]))"

definition mixed_response :: network where
  "mixed_response n url =
    Response 200 (Some (JArr
      [JObj [(''hourly'', JObj [(''temperature_2m'', JArr [JNum 70, JNum 71])])],
       JObj [(''latitude'', JNum 24)],
       JObj [(''hourly'', JObj [(''temperature_2m'', JNull)])],
       JObj [(''hourly'', JObj [(''temperature_2m'', JArr [])])]]))"

text \<open>
  A renderer for examples: a map that scales degrees by ten from its north-west corner,
  and one record with the temperatures 0 and 120.
\<close>

definition example_view :: map_view where
  "example_view =
    \<lparr>getSize = (800, 600), getNorth = 50, getWest = -126,
     latLngToContainerPoint = (\<lambda>c. ((snd c + 126) * 10, (50 - fst c) * 10)),
     containerPointToLayerPoint = (\<lambda>p. p)\<rparr>"

definition example_renderer :: WeatherRenderer where
  "example_renderer =
    \<lparr>leaflet_map = example_view,
     the_canvas = \<lparr>canvas_width = 0, canvas_height = 0, canvas_position = (0, 0), filled = []\<rparr>,
     shownData = [], currentHour = 0\<rparr>"

definition example_records :: "WeatherRecord list" where
  "example_records = [\<lparr>coords = Some (24, -126), temperatures = JArr [JNum 0, JNum 120]\<rparr>]"

text \<open>
  For the grid: a number that is a multiple of a quarter (every latitude and longitude
  the two loops reach is one), and the invariant of the pair of \<open>grid\<close> and
  \<open>seen\<close>: \<open>seen\<close> holds exactly the keys of the grid's points, and no two points of
  the grid have the same key.
\<close>

definition quarter :: "rat \<Rightarrow> bool" where
  "quarter x = (\<exists>k :: int. x = of_int k / 4)"

definition keyed :: "coord list \<Rightarrow> string set \<Rightarrow> bool" where
  "keyed grid seen = (seen = coord_key ` set grid \<and> distinct (map coord_key grid))"

section \<open>Properties of the colour mapper\<close>

lemma floor_rat_numeral [simp]:
  "\<lfloor>numeral a / numeral b :: rat\<rfloor> = numeral a div numeral b"
  by (metis floor_divide_of_int_eq of_int_numeral)

lemma floor_rat_neg_numeral [simp]:
  "\<lfloor>- (numeral a / numeral b) :: rat\<rfloor> = - numeral a div numeral b"
  by (metis floor_divide_of_int_eq of_int_numeral of_int_minus minus_divide_left)

lemma getTemperatureColor_NaN: "getTemperatureColor NaN = Transparent"
  by (simp add: getTemperatureColor_def colorTable_def)

text \<open>
  C6. At or below the lowest threshold, -20, the colour is the first anchor's,
  \<open>rgba(138,43,226,0.8)\<close>; at or above the highest, 120, it is the last anchor's,
  \<open>rgba(139,0,0,0.8)\<close>. The four temperatures the specification names are instances.
\<close>

theorem clamp_to_extreme_anchors:
  "(t \<le> -20 \<longrightarrow> getTemperatureColor (Num t) = Rgba_join [138, 43, 226, 4/5]) \<and>
   (120 \<le> t \<longrightarrow> getTemperatureColor (Num t) = Rgba_join [139, 0, 0, 4/5]) \<and>
   Rgba_join [138, 43, 226, 4/5] = Rgba_join (snd (hd colorTable)) \<and>
   Rgba_join [139, 0, 0, 4/5] = Rgba_join (snd (last colorTable))"
  by (simp add: getTemperatureColor_def colorTable_def)

theorem clamp_to_extreme_anchors_witness:
  "(-100 :: rat) \<le> -20 \<and> getTemperatureColor (Num (-100)) = Rgba_join [138, 43, 226, 4/5] \<and>
   (-20 :: rat) \<le> -20 \<and> getTemperatureColor (Num (-20)) = Rgba_join [138, 43, 226, 4/5] \<and>
   (120 :: rat) \<le> 120 \<and> getTemperatureColor (Num 120) = Rgba_join [139, 0, 0, 4/5] \<and>
   (120 :: rat) \<le> 500 \<and> getTemperatureColor (Num 500) = Rgba_join [139, 0, 0, 4/5]"
  using clamp_to_extreme_anchors [of "-100"] clamp_to_extreme_anchors [of "-20"]
    clamp_to_extreme_anchors [of 120] clamp_to_extreme_anchors [of 500]
  by simp

text \<open>
  C7. At 0, the threshold of the third anchor, the interpolation between the anchors
  of -10 and 0 has factor 1 and yields the colour of the anchor of 0: red 0, green 0,
  blue 255, alpha 0.8 (written by the template with a blank after each comma). The same
  holds at the threshold of every anchor: the colour there is the anchor's.
\<close>

theorem color_at_zero:
  "getTemperatureColor (Num 0) = Rgba 0 0 255 (4/5) \<and>
   channels (getTemperatureColor (Num 0)) = Some (snd (colorTable ! 2)) \<and>
   fst (colorTable ! 2) = 0 \<and>
   list_all (\<lambda>stop. channels (getTemperatureColor (Num (fst stop))) = Some (snd stop)) colorTable"
  by (simp add: getTemperatureColor_def colorTable_def interpolate_def)

text \<open>The colours at the midpoints of adjacent anchors.\<close>

lemma midpoint_values:
  "getTemperatureColor (Num (adjacent_midpoint 0)) = Rgba 106 21 178 (4/5)"
  "getTemperatureColor (Num (adjacent_midpoint 1)) = Rgba 37 0 192 (4/5)"
  "getTemperatureColor (Num (adjacent_midpoint 2)) = Rgba 0 50 255 (4/5)"
  "getTemperatureColor (Num (adjacent_midpoint 3)) = Rgba 0 125 255 (4/5)"
  "getTemperatureColor (Num (adjacent_midpoint 4)) = Rgba 0 175 255 (4/5)"
  "getTemperatureColor (Num (adjacent_midpoint 5)) = Rgba 0 227 227 (4/5)"
  "getTemperatureColor (Num (adjacent_midpoint 6)) = Rgba 0 255 100 (4/5)"
  "getTemperatureColor (Num (adjacent_midpoint 7)) = Rgba 86 255 23 (4/5)"
  "getTemperatureColor (Num (adjacent_midpoint 8)) = Rgba 214 255 23 (4/5)"
  "getTemperatureColor (Num (adjacent_midpoint 9)) = Rgba 255 227 0 (4/5)"
  "getTemperatureColor (Num (adjacent_midpoint 10)) = Rgba 255 175 0 (4/5)"
  "getTemperatureColor (Num (adjacent_midpoint 11)) = Rgba 255 109 0 (4/5)"
  "getTemperatureColor (Num (adjacent_midpoint 12)) = Rgba 255 34 0 (4/5)"
  "getTemperatureColor (Num (adjacent_midpoint 13)) = Rgba 197 0 0 (4/5)"
  "getTemperatureColor (Num (adjacent_midpoint (Suc 0))) = Rgba 37 0 192 (4/5)"
  by (simp_all add: adjacent_midpoint_def getTemperatureColor_def colorTable_def interpolate_def)

lemma below_14: "i < 14 \<Longrightarrow> i \<in> {0, 1, 2, 3, 4, 5, 6, 7, 8, 9, 10, 11, 12, 13::nat}"
  by simp arith

lemma below_3: "j < 3 \<longleftrightarrow> j = 0 \<or> j = 1 \<or> j = (2::nat)"
  by auto

text \<open>
  C3, as the specification states it, fails: between the anchors of -10 and 0 the green
  channel is 0 on both sides, and the midpoint -5 has green 0, which is not strictly
  between 0 and 0.
\<close>

theorem midpoint_green_not_strictly_between:
  "getTemperatureColor (Num (adjacent_midpoint 1)) = Rgba 37 0 192 (4/5) \<and>
   snd (colorTable ! 1) ! 1 = 0 \<and> snd (colorTable ! 2) ! 1 = 0 \<and>
   \<not> strictly_between (snd (colorTable ! 1) ! 1) (snd (colorTable ! 2) ! 1) 0"
  by (simp add: midpoint_values) (simp add: colorTable_def strictly_between_def)

text \<open>
  C3, amended. At the midpoint of two adjacent anchors each of the channels red, green
  and blue is strictly between the two anchors' values where these differ, and equal to
  them where they are the same; alpha is 0.8.
\<close>

theorem midpoint_between_anchors:
  assumes "Suc i < length colorTable"
  shows "\<exists>r g b. getTemperatureColor (Num (adjacent_midpoint i)) = Rgba r g b (4/5) \<and>
           (\<forall>j<3. if snd (colorTable ! i) ! j = snd (colorTable ! Suc i) ! j
                   then [r, g, b] ! j = snd (colorTable ! i) ! j
                   else strictly_between (snd (colorTable ! i) ! j) (snd (colorTable ! Suc i) ! j)
                          ([r, g, b] ! j))"
proof -
  from assms have "i < 14"
    by (simp add: colorTable_def)
  then have "i \<in> {0, 1, 2, 3, 4, 5, 6, 7, 8, 9, 10, 11, 12, 13::nat}"
    by (rule below_14)
  then show ?thesis
    by (elim insertE emptyE; simp add: midpoint_values below_3 colorTable_def strictly_between_def)
qed

theorem midpoint_between_anchors_witness:
  "Suc 0 < length colorTable \<and>
   (\<exists>r g b. getTemperatureColor (Num (adjacent_midpoint 0)) = Rgba r g b (4/5) \<and>
      (\<forall>j<3. if snd (colorTable ! 0) ! j = snd (colorTable ! Suc 0) ! j
              then [r, g, b] ! j = snd (colorTable ! 0) ! j
              else strictly_between (snd (colorTable ! 0) ! j) (snd (colorTable ! Suc 0) ! j)
                     ([r, g, b] ! j)))"
proof -
  have h: "Suc 0 < length colorTable"
    by (simp add: colorTable_def)
  show ?thesis
    using h midpoint_between_anchors [OF h] by blast
qed

section \<open>Properties of the arithmetic in doubles\<close>

text \<open>
  \<open>exponent\<close> is the exponent it is meant to be; the rounding is monotone, leaves the
  numbers with a significand of 53 bits as they are (among them the integers below
  \<open>2^53\<close>), and in the normal range has a relative error of at most \<open>2^-53\<close>.
\<close>

lemma bitlen_powi:
  assumes "0 < a"
  shows "2 powi (bitlen a - 1) \<le> rat_of_int a" and "rat_of_int a < 2 powi bitlen a"
proof -
  from assms have pos: "1 \<le> bitlen a"
    by (auto simp: bitlen_alt_def)
  from bitlen_bounds [OF assms] have "2 ^ nat (bitlen a - 1) \<le> a" and "a < 2 ^ nat (bitlen a)"
    by simp_all
  then have "rat_of_int (2 ^ nat (bitlen a - 1)) \<le> rat_of_int a"
    and "rat_of_int a < rat_of_int (2 ^ nat (bitlen a))"
    by (simp_all only: of_int_le_iff of_int_less_iff)
  with pos show "2 powi (bitlen a - 1) \<le> rat_of_int a" and "rat_of_int a < 2 powi bitlen a"
    by (simp_all add: power_int_def)
qed

lemma exponent_bounds:
  assumes "0 < x"
  shows "2 powi exponent x \<le> x" and "x < 2 powi (exponent x + 1)"
proof -
  obtain a b where q: "quotient_of x = (a, b)"
    by (cases "quotient_of x")
  then have b: "0 < b" and x: "x = rat_of_int a / rat_of_int b"
    by (simp_all add: quotient_of_denom_pos quotient_of_div)
  with assms have a: "0 < a"
    by (simp add: zero_less_divide_iff)
  let ?e = "bitlen a - bitlen b"
  note A = bitlen_powi [OF a] and B = bitlen_powi [OF b]
  have b': "0 < rat_of_int b"
    using b by simp
  have "2 powi (?e - 1) * rat_of_int b < 2 powi (?e - 1) * 2 powi bitlen b"
    using B(2) by (intro mult_strict_left_mono) simp_all
  also have "\<dots> = 2 powi (bitlen a - 1)"
    by (simp flip: power_int_add)
  also have "\<dots> \<le> rat_of_int a"
    by (rule A(1))
  finally have low: "2 powi (?e - 1) < x"
    using b' by (simp add: x pos_less_divide_eq)
  have "rat_of_int a < 2 powi bitlen a"
    by (rule A(2))
  also have "\<dots> = 2 powi (?e + 1) * 2 powi (bitlen b - 1)"
    by (simp flip: power_int_add)
  also have "\<dots> \<le> 2 powi (?e + 1) * rat_of_int b"
    using B(1) by (intro mult_left_mono) simp_all
  finally have high: "x < 2 powi (?e + 1)"
    using b' by (simp add: x pos_divide_less_eq)
  have e: "exponent x = (if x < 2 powi ?e then ?e - 1 else ?e)"
    using assms q by (simp add: exponent_def Let_def)
  show "2 powi exponent x \<le> x"
    using low by (simp add: e)
  show "x < 2 powi (exponent x + 1)"
    using high by (simp add: e)
qed

lemma powi_less_cancel:
  assumes "(2::rat) powi a < 2 powi b"
  shows "a < b"
proof (rule ccontr)
  assume "\<not> a < b"
  then have "b \<le> a"
    by simp
  then have "(2::rat) powi b \<le> 2 powi a"
    by (rule power_int_increasing) simp
  with assms show False
    by simp
qed

lemma exponent_unique:
  assumes "2 powi e \<le> x" and "x < 2 powi (e + 1)"
  shows "exponent x = e"
proof -
  have "0 < (2::rat) powi e"
    by simp
  from this assms(1) have pos: "0 < x"
    by (rule less_le_trans)
  note b = exponent_bounds [OF pos]
  have "(2::rat) powi exponent x < 2 powi (e + 1)"
    using b(1) assms(2) by (rule le_less_trans)
  then have "exponent x < e + 1"
    by (rule powi_less_cancel)
  moreover have "(2::rat) powi e < 2 powi (exponent x + 1)"
    using assms(1) b(2) by (rule le_less_trans)
  then have "e < exponent x + 1"
    by (rule powi_less_cancel)
  ultimately show ?thesis
    by simp
qed

lemma round_half_even_of_int [simp]: "round_half_even (of_int i) = i"
  by (simp add: round_half_even_def)

lemma round_half_even_mono:
  assumes "m \<le> n"
  shows "round_half_even m \<le> round_half_even n"
proof (cases "\<lfloor>m\<rfloor> = \<lfloor>n\<rfloor>")
  case True
  with assms show ?thesis
    by (auto simp: round_half_even_def Let_def)
next
  case False
  with assms have "\<lfloor>m\<rfloor> + 1 \<le> \<lfloor>n\<rfloor>"
    using floor_mono [of m n] by simp
  moreover have "round_half_even m \<le> \<lfloor>m\<rfloor> + 1"
    by (simp add: round_half_even_def Let_def)
  moreover have "\<lfloor>n\<rfloor> \<le> round_half_even n"
    by (simp add: round_half_even_def Let_def)
  ultimately show ?thesis
    by linarith
qed

lemma round_half_even_error:
  shows "rat_of_int (round_half_even m) - m \<le> 1 / 2"
    and "m - rat_of_int (round_half_even m) \<le> 1 / 2"
proof -
  define r where "r = m - rat_of_int \<lfloor>m\<rfloor>"
  have r: "0 \<le> r" "r < 1" and m: "m = rat_of_int \<lfloor>m\<rfloor> + r"
    unfolding r_def by linarith+
  have "round_half_even m = \<lfloor>m\<rfloor> \<and> r \<le> 1 / 2 \<or>
        round_half_even m = \<lfloor>m\<rfloor> + 1 \<and> 1 / 2 \<le> r"
    unfolding round_half_even_def Let_def r_def [symmetric] by auto
  then show "rat_of_int (round_half_even m) - m \<le> 1 / 2"
    and "m - rat_of_int (round_half_even m) \<le> 1 / 2"
    using r m by auto
qed


lemma round_half_even_0 [simp]: "round_half_even 0 = 0"
  using round_half_even_of_int [of 0] by simp

lemma double_0 [simp]: "double 0 = 0"
  by (simp add: double_def)

lemma double_nonneg:
  assumes "0 \<le> x"
  shows "0 \<le> double x"
proof -
  define u where "u = (2::rat) powi (max (exponent x) (- 1022) - 52)"
  have u: "0 < u"
    by (simp add: u_def)
  with assms have "rat_of_int 0 \<le> x / u"
    by simp
  then have "round_half_even (rat_of_int 0) \<le> round_half_even (x / u)"
    by (rule round_half_even_mono)
  then have "0 \<le> rat_of_int (round_half_even (x / u))"
    by simp
  with u show ?thesis
    by (simp add: double_def u_def [symmetric])
qed

lemma double_upper:
  assumes "0 < x"
  shows "double x \<le> 2 powi (max (exponent x) (- 1022) + 1)"
proof -
  define e where "e = max (exponent x) (- 1022)"
  define u where "u = (2::rat) powi (e - 52)"
  have u: "0 < u"
    by (simp add: u_def)
  have split: "(2::rat) powi (e + 1) = 2 ^ 53 * u"
    using power_int_add [of "2::rat" 53 "e - 52"] by (simp add: u_def add.commute)
  have "x < 2 powi (exponent x + 1)"
    by (rule exponent_bounds(2) [OF assms])
  also have "\<dots> \<le> 2 powi (e + 1)"
    by (rule power_int_increasing) (simp_all add: e_def)
  finally have "x / u < 2 ^ 53"
    using u by (simp add: split pos_divide_less_eq)
  then have "x / u \<le> rat_of_int (2 ^ 53)"
    by simp
  then have "round_half_even (x / u) \<le> round_half_even (rat_of_int (2 ^ 53))"
    by (rule round_half_even_mono)
  then have "round_half_even (x / u) \<le> 2 ^ 53"
    by (simp only: round_half_even_of_int)
  then have "rat_of_int (round_half_even (x / u)) \<le> rat_of_int (2 ^ 53)"
    by (simp only: of_int_le_iff)
  then have "rat_of_int (round_half_even (x / u)) * u \<le> 2 ^ 53 * u"
    using u by (intro mult_right_mono) simp_all
  then show ?thesis
    by (simp only: split double_def Let_def e_def [symmetric] u_def [symmetric])
qed

lemma double_lower:
  assumes "0 < x" and "- 1022 \<le> exponent x"
  shows "2 powi exponent x \<le> double x"
proof -
  define e where "e = exponent x"
  define u where "u = (2::rat) powi (e - 52)"
  have u: "0 < u"
    by (simp add: u_def)
  have "(2::rat) powi e = 2 powi (52 + (e - 52))"
    by simp
  also have "\<dots> = 2 powi 52 * u"
    unfolding u_def by (rule power_int_add) simp
  finally have split: "(2::rat) powi e = 2 ^ 52 * u"
    by simp
  have "2 powi e \<le> x"
    unfolding e_def by (rule exponent_bounds(1) [OF assms(1)])
  then have "rat_of_int (2 ^ 52) \<le> x / u"
    using u by (simp add: split pos_le_divide_eq)
  then have "round_half_even (rat_of_int (2 ^ 52)) \<le> round_half_even (x / u)"
    by (rule round_half_even_mono)
  then have "2 ^ 52 \<le> round_half_even (x / u)"
    by (simp only: round_half_even_of_int)
  then have "rat_of_int (2 ^ 52) \<le> rat_of_int (round_half_even (x / u))"
    by (simp only: of_int_le_iff)
  then have "2 ^ 52 * u \<le> rat_of_int (round_half_even (x / u)) * u"
    using u by (intro mult_right_mono) simp_all
  moreover have "max (exponent x) (- 1022) = e"
    using assms(2) by (simp add: e_def)
  ultimately show ?thesis
    by (simp only: split double_def Let_def e_def [symmetric] u_def [symmetric])
qed

lemma exponent_mono:
  assumes "0 < x" and "x \<le> y"
  shows "exponent x \<le> exponent y"
proof -
  from assms have y: "0 < y"
    by simp
  have "2 powi exponent x \<le> x"
    by (rule exponent_bounds(1) [OF assms(1)])
  also note assms(2)
  also have "y < 2 powi (exponent y + 1)"
    by (rule exponent_bounds(2) [OF y])
  finally have "exponent x < exponent y + 1"
    by (rule powi_less_cancel)
  then show ?thesis
    by simp
qed

lemma double_mono:
  assumes "0 \<le> x" and "x \<le> y"
  shows "double x \<le> double y"
proof (cases "x = 0")
  case True
  with assms show ?thesis
    by (simp add: double_nonneg)
next
  case False
  with assms have x: "0 < x" and y: "0 < y"
    by simp_all
  define e where "e = max (exponent x) (- 1022)"
  define e' where "e' = max (exponent y) (- 1022)"
  have le: "e \<le> e'"
    using exponent_mono [OF x assms(2)] by (simp add: e_def e'_def)
  show ?thesis
  proof (cases "e = e'")
    case True
    define u where "u = (2::rat) powi (e - 52)"
    have u: "0 < u"
      by (simp add: u_def)
    with assms(2) have "x / u \<le> y / u"
      by (simp add: divide_right_mono)
    then have "round_half_even (x / u) \<le> round_half_even (y / u)"
      by (rule round_half_even_mono)
    then have "rat_of_int (round_half_even (x / u)) \<le> rat_of_int (round_half_even (y / u))"
      by (simp only: of_int_le_iff)
    then have "rat_of_int (round_half_even (x / u)) * u \<le> rat_of_int (round_half_even (y / u)) * u"
      using u by (intro mult_right_mono) simp_all
    moreover have "double x = rat_of_int (round_half_even (x / u)) * u"
      by (simp only: double_def Let_def e_def [symmetric] u_def [symmetric])
    moreover have "double y = rat_of_int (round_half_even (y / u)) * u"
      by (simp only: double_def Let_def e'_def [symmetric] True [symmetric] u_def [symmetric])
    ultimately show ?thesis
      by simp
  next
    case False
    with le have less: "e + 1 \<le> e'"
      by simp
    then have normal: "- 1022 \<le> exponent y" and e': "e' = exponent y"
      by (simp_all add: e_def e'_def)
    have "double x \<le> 2 powi (e + 1)"
      unfolding e_def by (rule double_upper [OF x])
    also have "\<dots> \<le> 2 powi e'"
      using less by (rule power_int_increasing) simp
    also have "\<dots> \<le> double y"
      unfolding e' by (rule double_lower [OF y normal])
    finally show ?thesis .
  qed
qed

lemma double_error:
  assumes "2 powi (- 1022) \<le> x"
  shows "(1 - 1 / 2 ^ 53) * x \<le> double x" and "double x \<le> (1 + 1 / 2 ^ 53) * x"
proof -
  define e where "e = exponent x"
  define u where "u = (2::rat) powi (e - 52)"
  define m where "m = x / u"
  have "0 < (2::rat) powi (- 1022)"
    by simp
  from this assms have x: "0 < x"
    by (rule less_le_trans)
  have u: "0 < u"
    by (simp add: u_def)
  note assms
  also have "x < 2 powi (e + 1)"
    unfolding e_def by (rule exponent_bounds(2) [OF x])
  finally have "- 1022 < e + 1"
    by (rule powi_less_cancel)
  then have "max (exponent x) (- 1022) = e"
    by (simp add: e_def)
  then have d: "double x = rat_of_int (round_half_even m) * u"
    by (simp only: double_def Let_def u_def m_def)
  have xm: "x = m * u"
    using u by (simp add: m_def)
  have "(2::rat) powi e = 2 powi (52 + (e - 52))"
    by simp
  also have "\<dots> = 2 powi 52 * u"
    unfolding u_def by (rule power_int_add) simp
  finally have split: "(2::rat) powi e = 2 ^ 52 * u"
    by simp
  have "2 powi e \<le> x"
    unfolding e_def by (rule exponent_bounds(1) [OF x])
  then have half: "u / 2 \<le> x / 2 ^ 53"
    by (simp add: split)
  have "(rat_of_int (round_half_even m) - m) * u \<le> 1 / 2 * u"
    using round_half_even_error(1) u by (intro mult_right_mono) simp_all
  moreover have "(m - rat_of_int (round_half_even m)) * u \<le> 1 / 2 * u"
    using round_half_even_error(2) u by (intro mult_right_mono) simp_all
  ultimately
  have "double x - x \<le> u / 2" and "x - double x \<le> u / 2"
    unfolding d by (simp_all add: xm [symmetric] left_diff_distrib)
  with half show "(1 - 1 / 2 ^ 53) * x \<le> double x" and "double x \<le> (1 + 1 / 2 ^ 53) * x"
    by (simp_all add: algebra_simps)
qed


lemma double_representable:
  assumes "0 < i" and "i < 2 ^ 53" and "- 1074 \<le> k"
  shows "double (rat_of_int i * 2 powi k) = rat_of_int i * 2 powi k"
proof -
  define x where "x = rat_of_int i * 2 powi k"
  define e where "e = max (exponent x) (- 1022)"
  define u where "u = (2::rat) powi (e - 52)"
  define n where "n = nat (k - (e - 52))"
  have u: "0 < u"
    by (simp add: u_def)
  have i: "0 < rat_of_int i" "rat_of_int i < rat_of_int (2 ^ 53)"
    using assms(1,2) by (simp_all only: of_int_0_less_iff of_int_less_iff)
  then have x: "0 < x"
    by (simp add: x_def)
  have "2 powi exponent x \<le> x"
    by (rule exponent_bounds(1) [OF x])
  also have "x < 2 ^ 53 * 2 powi k"
    unfolding x_def using i(2) by (intro mult_strict_right_mono) simp_all
  also have "\<dots> = 2 powi (53 + k)"
    using power_int_add [of "2::rat" 53 k] by simp
  finally have "exponent x < 53 + k"
    by (rule powi_less_cancel)
  with assms(3) have "e - 52 \<le> k"
    by (simp add: e_def)
  then have "k = int n + (e - 52)"
    by (simp add: n_def)
  then have "(2::rat) powi k = 2 powi (int n + (e - 52))"
    by simp
  also have "\<dots> = 2 powi int n * u"
    unfolding u_def by (rule power_int_add) simp
  finally have k: "(2::rat) powi k = 2 ^ n * u"
    by simp
  have "x / u = rat_of_int (i * 2 ^ n)"
    using u by (simp add: x_def k)
  then have "round_half_even (x / u) = i * 2 ^ n"
    by (simp only: round_half_even_of_int)
  then have "double x = rat_of_int (i * 2 ^ n) * u"
    by (simp only: double_def Let_def e_def [symmetric] u_def [symmetric])
  also have "\<dots> = x"
    by (simp add: x_def k)
  finally show ?thesis
    by (simp only: x_def)
qed

lemma double_of_int:
  assumes "0 < i" and "i < 2 ^ 53"
  shows "double (rat_of_int i) = rat_of_int i"
  using double_representable [OF assms, of 0] by simp

lemma double_1 [simp]: "double 1 = 1"
  using double_of_int [of 1] by simp

lemma double_numeral [simp]: "(numeral n :: int) < 2 ^ 53 \<Longrightarrow> double (numeral n) = numeral n"
  using double_of_int [of "numeral n"] by simp

text \<open>The rounding of a number whose exponent is known.\<close>

lemma double_eval:
  assumes "2 powi e \<le> x" and "x < 2 powi (e + 1)" and "- 1022 \<le> e"
  shows "double x = rat_of_int (round_half_even (x / 2 powi (e - 52))) * 2 powi (e - 52)"
proof -
  from assms(1,2) have "exponent x = e"
    by (rule exponent_unique)
  with assms(3) show ?thesis
    by (simp add: double_def Let_def)
qed

lemma double_relative_error:
  assumes "1 / 2 ^ 60 \<le> x"
  shows "(1 - 1 / 2 ^ 53) * x \<le> double x" and "double x \<le> (1 + 1 / 2 ^ 53) * x"
proof -
  have "(2::rat) powi (- 1022) \<le> 2 powi (- 60)"
    by (rule power_int_increasing) simp_all
  also have "\<dots> = 1 / 2 ^ 60"
    by (simp add: power_int_minus_divide)
  also note assms
  finally have normal: "2 powi (- 1022) \<le> x" .
  show "(1 - 1 / 2 ^ 53) * x \<le> double x" and "double x \<le> (1 + 1 / 2 ^ 53) * x"
    by (rule double_error [OF normal])+
qed

section \<open>Properties of the data fetcher\<close>

lemma get_prop_Inl: "get_prop v name = Inl e \<longleftrightarrow> (v = None \<or> v = Some JNull) \<and> e = TypeError"
  by (cases "(v, name)" rule: get_prop.cases) auto

lemma truthy_not_null: "truthy v \<Longrightarrow> v \<noteq> None \<and> v \<noteq> Some JNull"
  by (cases v rule: truthy.cases) auto

lemma hourly_series_Inl: "hourly_series point = Inl e \<longleftrightarrow> point = JNull \<and> e = TypeError"
  by (auto simp: hourly_series_def get_prop_Inl split: sum.splits if_splits dest: truthy_not_null)

lemma forEach_point_error:
  "snd (forEach_point chunk index points records) \<noteq> None \<longleftrightarrow> JNull \<in> set points"
proof (induction points arbitrary: index records)
  case Nil
  then show ?case by simp
next
  case (Cons point points)
  show ?case
  proof (cases "hourly_series point")
    case (Inl e)
    then have "point = JNull"
      by (simp add: hourly_series_Inl)
    with Inl show ?thesis by simp
  next
    case (Inr t)
    then have "point \<noteq> JNull"
      using hourly_series_Inl [of point TypeError] by auto
    with Inr Cons.IH show ?thesis
      by (cases t) auto
  qed
qed

text \<open>The outcomes of the body of \<open>try\<close>.\<close>

lemma try_chunk_error:
  "snd (try_chunk net updateProgress totalChunks s chunk) = None \<longleftrightarrow>
   \<not> throws (net (length (filter is_Fetch (trace s))) (request_url (apiKey s) chunk)) \<and>
   updateProgress (length (filter is_UpdateProgress (trace s)))
     (progress_of totalChunks (Suc (processedChunks s))) = None"
proof (cases "net (length (filter is_Fetch (trace s))) (request_url (apiKey s) chunk)")
  case Rejected
  then show ?thesis
    by (simp add: try_chunk_def Let_def)
next
  case (Response status body)
  show ?thesis
  proof (cases body)
    case None
    with Response show ?thesis
      by (simp add: try_chunk_def Let_def)
  next
    case (Some data)
    show ?thesis
    proof (cases data)
      case (JArr points)
      with Response Some show ?thesis
        using forEach_point_error [of chunk 0 points "weatherData s"]
        by (cases "forEach_point chunk 0 points (weatherData s)")
           (auto simp: try_chunk_def Let_def progress_of_def split: option.splits)
    qed (use Response Some in
          \<open>auto simp: try_chunk_def Let_def progress_of_def split: option.splits\<close>)
  qed
qed

lemma try_chunk_thrown:
  assumes "try_chunk net updateProgress totalChunks s chunk = (s', Some e)"
  shows "apiKey s' = apiKey s"
    and "filter is_Fetch (trace s') =
           filter is_Fetch (trace s) @ [Fetch (request_url (apiKey s) chunk)]"
    and "trace s' = trace s @ [Fetch (request_url (apiKey s) chunk)] \<or>
         (\<exists>p. trace s' = trace s @ [Fetch (request_url (apiKey s) chunk), UpdateProgress p])"
  using assms
  by (auto simp: try_chunk_def Let_def
      split: response.splits if_splits option.splits json.splits prod.splits)

text \<open>With a callback that never throws, an attempt that throws has not reached it.\<close>

lemma try_chunk_thrown_early:
  assumes "\<forall>k p. updateProgress k p = None"
    and "try_chunk net updateProgress totalChunks s chunk = (s', Some e)"
  shows "trace s' = trace s @ [Fetch (request_url (apiKey s) chunk)]"
    and "processedChunks s' = processedChunks s"
  using assms
  by (auto simp: try_chunk_def Let_def
      split: response.splits if_splits option.splits json.splits prod.splits)

lemma try_chunk_done:
  assumes "try_chunk net updateProgress totalChunks s chunk = (s', None)"
  shows "trace s' = trace s @ [Fetch (request_url (apiKey s) chunk),
            UpdateProgress (progress_of totalChunks (Suc (processedChunks s))),
            SetTimeout 100]"
    and "processedChunks s' = Suc (processedChunks s)"
    and "apiKey s' = apiKey s"
  using assms
  by (auto simp: try_chunk_def Let_def progress_of_def
      split: response.splits if_splits option.splits json.splits prod.splits)

lemma fetch_loop_invariant:
  assumes "P s chunks"
    and "\<And>s chunk rest s'. P s (chunk # rest) \<Longrightarrow> try_chunk net updateProgress totalChunks s chunk = (s', None)
           \<Longrightarrow> P s' rest"
    and "\<And>s chunk rest s' e. P s (chunk # rest) \<Longrightarrow> try_chunk net updateProgress totalChunks s chunk = (s', Some e)
           \<Longrightarrow> P (s'\<lparr>trace := trace s' @ [ConsoleError e]\<rparr>) (rest @ [chunk])"
  shows "P (fst (fetch_loop fuel net updateProgress totalChunks s chunks)) (snd (fetch_loop fuel net updateProgress totalChunks s chunks))"
  using assms(1)
proof (induction fuel arbitrary: s chunks)
  case 0
  then show ?case by simp
next
  case (Suc fuel)
  show ?case
  proof (cases chunks)
    case Nil
    with Suc.prems show ?thesis by simp
  next
    case (Cons chunk rest)
    obtain s' thrown where step: "try_chunk net updateProgress totalChunks s chunk = (s', thrown)"
      by (cases "try_chunk net updateProgress totalChunks s chunk")
    show ?thesis
    proof (cases thrown)
      case None
      with step Suc.prems Cons have "P s' rest"
        using assms(2) by blast
      then show ?thesis
        using Suc.IH Cons step None by simp
    next
      case (Some e)
      with step Suc.prems Cons have "P (s'\<lparr>trace := trace s' @ [ConsoleError e]\<rparr>) (rest @ [chunk])"
        using assms(3) by blast
      then show ?thesis
        using Suc.IH Cons step Some by simp
    qed
  qed
qed

lemma progress_values_append:
  "progress_values (xs @ ys) = progress_values xs @ progress_values ys"
  by (induction xs rule: progress_values.induct) auto

lemma attempts_only_append:
  "attempts_only xs \<Longrightarrow> attempts_only (xs @ ys) = attempts_only ys"
  by (induction xs rule: attempts_only.induct) auto

lemma attempts_any_append:
  "attempts_any xs \<Longrightarrow> attempts_any (xs @ ys) = attempts_any ys"
  by (induction xs rule: attempts_any.induct) auto

lemma progress_invariant:
  assumes "\<forall>k p. updateProgress k p = None"
    and "processedChunks s + length chunks = totalChunks"
    and "progress_values (trace s) =
           map (progress_of totalChunks) [1..<Suc (processedChunks s)]"
    and "fetch_loop fuel net updateProgress totalChunks s chunks = (s', pending)"
  shows "processedChunks s' + length pending = totalChunks \<and>
         progress_values (trace s') =
           map (progress_of totalChunks) [1..<Suc (processedChunks s')]"
proof -
  let ?P = "\<lambda>s chunks. processedChunks s + length chunks = totalChunks \<and>
         progress_values (trace s) =
           map (progress_of totalChunks) [1..<Suc (processedChunks s)]"
  have "?P (fst (fetch_loop fuel net updateProgress totalChunks s chunks))
           (snd (fetch_loop fuel net updateProgress totalChunks s chunks))"
  proof (rule fetch_loop_invariant [where P = ?P])
    show "?P s chunks" using assms by simp
  next
    fix s chunk rest s'
    assume "?P s (chunk # rest)"
      and step: "try_chunk net updateProgress totalChunks s chunk = (s', None)"
    then show "?P s' rest"
      using try_chunk_done [OF step]
      by (simp add: progress_values_append)
  next
    fix s chunk rest s' e
    assume "?P s (chunk # rest)"
      and step: "try_chunk net updateProgress totalChunks s chunk = (s', Some e)"
    then show "?P (s'\<lparr>trace := trace s' @ [ConsoleError e]\<rparr>) (rest @ [chunk])"
      using try_chunk_thrown_early [OF assms(1) step]
      by (simp add: progress_values_append)
  qed
  with assms(4) show ?thesis by simp
qed

lemma attempts_invariant:
  assumes "\<forall>k p. updateProgress k p = None" and "attempts_only (trace s)"
  shows "attempts_only (trace (fst (fetch_loop fuel net updateProgress totalChunks s chunks)))"
proof -
  let ?P = "\<lambda>s (chunks :: coord list list). attempts_only (trace s)"
  have "?P (fst (fetch_loop fuel net updateProgress totalChunks s chunks))
           (snd (fetch_loop fuel net updateProgress totalChunks s chunks))"
  proof (rule fetch_loop_invariant [where P = ?P])
    show "?P s chunks" using assms(2) by simp
  next
    fix s chunk rest s'
    assume "?P s (chunk # rest)"
      and step: "try_chunk net updateProgress totalChunks s chunk = (s', None)"
    then show "?P s' rest"
      using try_chunk_done [OF step]
      by (simp add: attempts_only_append)
  next
    fix s chunk rest s' e
    assume "?P s (chunk # rest)"
      and step: "try_chunk net updateProgress totalChunks s chunk = (s', Some e)"
    then show "?P (s'\<lparr>trace := trace s' @ [ConsoleError e]\<rparr>) (rest @ [chunk])"
      using try_chunk_thrown_early [OF assms(1) step]
      by (simp add: attempts_only_append)
  qed
  then show ?thesis by simp
qed

lemma attempts_any_invariant:
  assumes "attempts_any (trace s)"
  shows "attempts_any (trace (fst (fetch_loop fuel net updateProgress totalChunks s chunks)))"
proof -
  let ?P = "\<lambda>s (chunks :: coord list list). attempts_any (trace s)"
  have "?P (fst (fetch_loop fuel net updateProgress totalChunks s chunks))
           (snd (fetch_loop fuel net updateProgress totalChunks s chunks))"
  proof (rule fetch_loop_invariant [where P = ?P])
    show "?P s chunks" using assms by simp
  next
    fix s chunk rest s'
    assume "?P s (chunk # rest)"
      and step: "try_chunk net updateProgress totalChunks s chunk = (s', None)"
    then show "?P s' rest"
      using try_chunk_done [OF step]
      by (simp add: attempts_any_append)
  next
    fix s chunk rest s' e
    assume "?P s (chunk # rest)"
      and step: "try_chunk net updateProgress totalChunks s chunk = (s', Some e)"
    then show "?P (s'\<lparr>trace := trace s' @ [ConsoleError e]\<rparr>) (rest @ [chunk])"
      using try_chunk_thrown(3) [OF step]
      by (auto simp: attempts_any_append)
  qed
  then show ?thesis by simp
qed

lemma split_chunks_step:
  "i < length coordinates \<Longrightarrow>
   split_chunks i coordinates chunks =
   split_chunks (i + maxPointsPerRequest) coordinates
     (chunks @ [slice coordinates i (i + maxPointsPerRequest)])"
  by (subst split_chunks.simps) simp

lemma split_chunks_stop: "\<not> i < length coordinates \<Longrightarrow> split_chunks i coordinates chunks = chunks"
  by (subst split_chunks.simps) simp

lemma ceil_step_big: "Suc ((k + 99) div 100) = (k + 100 + 99) div (100::nat)"
  by simp
lemma ceil_step_small: "0 < m \<Longrightarrow> m < 100 \<Longrightarrow> (m + 99) div (100::nat) = 1"
  by simp
lemma ceil_step: "i < n \<Longrightarrow> Suc ((n - (i + 100) + 99) div 100) = (n - i + 99) div (100::nat)"
proof (cases "i + 100 \<le> n")
  case True
  then obtain k where "n = k + (i + 100)"
    using le_Suc_ex by (metis add.commute)
  then show ?thesis
    using ceil_step_big [of k] by (simp add: algebra_simps)
next
  case False
  assume "i < n"
  with False have "n - (i + 100) = 0" and "0 < n - i" and "n - i < 100"
    by simp_all
  then show ?thesis
    using ceil_step_small [of "n - i"] by simp
qed

lemma length_split_chunks:
  "length (split_chunks i coordinates chunks) = length chunks + (length coordinates - i + 99) div 100"
proof (induction i coordinates chunks rule: split_chunks.induct)
  case (1 i coordinates chunks)
  show ?case
  proof (cases "i < length coordinates")
    case True
    with "1.IH" ceil_step [OF True] show ?thesis
      by (simp add: split_chunks_step maxPointsPerRequest_def)
  next
    case False
    then show ?thesis
      by (simp add: split_chunks_stop)
  qed
qed

lemma chunk_sizes:
  "\<forall>chunk \<in> set chunks. chunk \<noteq> [] \<and> length chunk \<le> 100 \<Longrightarrow>
   \<forall>chunk \<in> set (split_chunks i coordinates chunks). chunk \<noteq> [] \<and> length chunk \<le> 100"
proof (induction i coordinates chunks rule: split_chunks.induct)
  case (1 i coordinates chunks)
  show ?case
  proof (cases "i < length coordinates")
    case True
    with "1.prems" have "\<forall>chunk \<in> set (chunks @ [slice coordinates i (i + maxPointsPerRequest)]).
        chunk \<noteq> [] \<and> length chunk \<le> 100"
      by (auto simp: slice_def maxPointsPerRequest_def)
    with True "1.IH" show ?thesis
      by (simp add: split_chunks_step)
  next
    case False
    with "1.prems" show ?thesis
      by (simp add: split_chunks_stop)
  qed
qed

lemma concat_split_chunks:
  "concat (split_chunks i coordinates chunks) = concat chunks @ drop i coordinates"
proof (induction i coordinates chunks rule: split_chunks.induct)
  case (1 i coordinates chunks)
  show ?case
  proof (cases "i < length coordinates")
    case True
    have "take maxPointsPerRequest (drop i coordinates) @ drop (i + maxPointsPerRequest) coordinates
        = drop i coordinates"
      by (metis add.commute append_take_drop_id drop_drop)
    with True "1.IH" show ?thesis
      by (simp add: split_chunks_step slice_def)
  next
    case False
    then show ?thesis
      by (simp add: split_chunks_stop)
  qed
qed

lemma fetch_run_start:
  "fetch_run fuel net this coordinates updateProgress = (s, pending) \<Longrightarrow>
   fetch_loop fuel net updateProgress (length (split_chunks 0 coordinates []))
     \<lparr>weatherData = weatherData this, apiKey = apiKey this, processedChunks = 0, trace = []\<rparr>
     (split_chunks 0 coordinates []) = (s, pending)"
  by (simp add: fetch_run_def Let_def)

lemma progress_of_le:
  assumes "k \<le> totalChunks"
  shows "progress_of totalChunks k \<le> 100"
proof -
  let ?q = "rat_of_nat k / rat_of_nat totalChunks"
  have q: "0 \<le> ?q"
    by simp
  from assms have "?q \<le> 1"
    by (cases "totalChunks = 0") (simp_all add: divide_le_eq)
  with q have "double ?q \<le> double 1"
    by (rule double_mono)
  then have le: "double ?q * 100 \<le> 100"
    by simp
  have "0 \<le> double ?q"
    using q by (rule double_nonneg)
  then have "0 \<le> double ?q * 100"
    by simp
  from this le have "double (double ?q * 100) \<le> double 100"
    by (rule double_mono)
  then show ?thesis
    by (simp add: progress_of_def)
qed

lemma progress_of_all:
  assumes "0 < totalChunks"
  shows "progress_of totalChunks totalChunks = 100"
  using assms by (simp add: progress_of_def)

text \<open>Arithmetic of the error bounds.\<close>

lemma error_floor: "1 / 2 ^ 51 < q \<Longrightarrow> 1 / 2 ^ 60 \<le> (q::rat)"
  by simp

lemma error_low: "1 / 2 ^ 51 < q \<Longrightarrow> (1 - 1 / 2 ^ 53) * q \<le> d \<Longrightarrow> 1 / 2 ^ 60 \<le> d * (100::rat)"
  by simp

lemma error_below: "(1 - 1 / 2 ^ 53) * q \<le> d \<Longrightarrow> (1 - 1 / 2 ^ 53) * (d * 100) \<le> p \<Longrightarrow> (1 - 1 / 2 ^ 53) * ((1 - 1 / 2 ^ 53) * q * 100) \<le> (p::rat)"
  by simp

lemma error_above: "d \<le> (1 + 1 / 2 ^ 53) * q \<Longrightarrow> p \<le> (1 + 1 / 2 ^ 53) * (d * 100) \<Longrightarrow> p \<le> (1 + 1 / 2 ^ 53) * ((1 + 1 / 2 ^ 53) * q * (100::rat))"
  by simp

text \<open>The two roundings keep a value within these factors of the exact one.\<close>

lemma progress_of_bounds:
  assumes "0 < k" and "k \<le> totalChunks" and "totalChunks < 2 ^ 51"
  shows "(1 - 1 / 2 ^ 53) * ((1 - 1 / 2 ^ 53) * (of_nat k / of_nat totalChunks) * 100)
           \<le> progress_of totalChunks k"
    and "progress_of totalChunks k
           \<le> (1 + 1 / 2 ^ 53) * ((1 + 1 / 2 ^ 53) * (of_nat k / of_nat totalChunks) * 100)"
proof -
  let ?q = "rat_of_nat k / rat_of_nat totalChunks"
  have "rat_of_nat totalChunks < rat_of_nat (2 ^ 51)"
    using assms(3) by (simp only: of_nat_less_iff)
  then have n51: "rat_of_nat totalChunks < 2 ^ 51"
    by simp
  have n: "0 < rat_of_nat totalChunks"
    using assms(1,2) by simp
  have k1: "1 \<le> rat_of_nat k" and kn: "rat_of_nat k \<le> rat_of_nat totalChunks"
    using assms(1,2) by simp_all
  have "1 / rat_of_nat totalChunks \<le> ?q"
    using k1 n by (simp add: divide_right_mono)
  moreover have "1 / 2 ^ 51 < 1 / rat_of_nat totalChunks"
    using n n51 by (simp add: divide_strict_left_mono)
  ultimately have lo: "1 / 2 ^ 51 < ?q"
    by (rule less_le_trans [rotated])
  have hi: "?q \<le> 1"
    using kn n by simp
  from lo have "1 / 2 ^ 60 \<le> ?q"
    by (rule error_floor)
  then have q: "(1 - 1 / 2 ^ 53) * ?q \<le> double ?q" "double ?q \<le> (1 + 1 / 2 ^ 53) * ?q"
    by (rule double_relative_error)+
  have "1 / 2 ^ 60 \<le> double ?q * 100"
    using lo q(1) by (rule error_low)
  then have p: "(1 - 1 / 2 ^ 53) * (double ?q * 100) \<le> double (double ?q * 100)"
    "double (double ?q * 100) \<le> (1 + 1 / 2 ^ 53) * (double ?q * 100)"
    by (rule double_relative_error)+
  show "(1 - 1 / 2 ^ 53) * ((1 - 1 / 2 ^ 53) * ?q * 100) \<le> progress_of totalChunks k"
    unfolding progress_of_def using q(1) p(1) by (rule error_below)
  show "progress_of totalChunks k \<le> (1 + 1 / 2 ^ 53) * ((1 + 1 / 2 ^ 53) * ?q * 100)"
    unfolding progress_of_def using q(2) p(2) by (rule error_above)
qed

lemma progress_of_mono:
  assumes "0 < i" and "i < j" and "j \<le> totalChunks" and "totalChunks < 2 ^ 51"
  shows "progress_of totalChunks i < progress_of totalChunks j"
proof -
  let ?n = "rat_of_nat totalChunks"
  have n: "0 < ?n"
    using assms(1-3) by simp
  have "Suc i \<le> j" and "i < 2 ^ 51"
    using assms(2-4) by simp_all
  then have "rat_of_nat (Suc i) \<le> rat_of_nat j" and "rat_of_nat i < rat_of_nat (2 ^ 51)"
    by (simp_all only: of_nat_le_iff of_nat_less_iff)
  then have i: "rat_of_nat i + 1 \<le> rat_of_nat j" "rat_of_nat i < 2 ^ 51"
    by simp_all
  have "progress_of totalChunks i
      \<le> (1 + 1 / 2 ^ 53) * ((1 + 1 / 2 ^ 53) * (rat_of_nat i / ?n) * 100)"
    using assms by (intro progress_of_bounds(2)) simp_all
  also have "\<dots> = ((1 + 1 / 2 ^ 53) * (1 + 1 / 2 ^ 53) * rat_of_nat i) * (100 / ?n)"
    by simp
  also have "\<dots> < ((1 - 1 / 2 ^ 53) * (1 - 1 / 2 ^ 53) * rat_of_nat j) * (100 / ?n)"
  proof (rule mult_strict_right_mono)
    show "(1 + 1 / 2 ^ 53) * (1 + 1 / 2 ^ 53) * rat_of_nat i
        < (1 - 1 / 2 ^ 53) * (1 - 1 / 2 ^ 53) * rat_of_nat j"
      using i by simp
    show "0 < 100 / ?n"
      using n by simp
  qed
  also have "\<dots> = (1 - 1 / 2 ^ 53) * ((1 - 1 / 2 ^ 53) * (rat_of_nat j / ?n) * 100)"
    by simp
  also have "\<dots> \<le> progress_of totalChunks j"
    using assms by (intro progress_of_bounds(1)) simp_all
  finally show ?thesis .
qed

text \<open>
  An example: with three chunks the reports are the doubles that JavaScript prints as
  33.33333333333333, 66.66666666666666 and 100; the first two are not the rationals
  100/3 and 200/3.
\<close>

lemma double_third: "double (1 / 3) = 6004799503160661 / 18014398509481984"
  by (subst double_eval [of "- 2"]) (simp_all add: round_half_even_def power_int_minus_divide)

lemma double_two_thirds: "double (2 / 3) = 6004799503160661 / 9007199254740992"
  by (subst double_eval [of "- 1"]) (simp_all add: round_half_even_def power_int_minus_divide)

lemma progress_of_thirds:
  "map (progress_of 3) [1, 2, 3] =
     [2345624805922133 / 70368744177664, 2345624805922133 / 35184372088832, 100]"
proof -
  have "progress_of 3 1 = double (150119987579016525 / 4503599627370496)"
    by (simp add: progress_of_def double_third)
  also have "\<dots> = 2345624805922133 / 70368744177664"
    by (subst double_eval [of 5]) (simp_all add: round_half_even_def power_int_minus_divide)
  finally have one: "progress_of 3 1 = 2345624805922133 / 70368744177664" .
  have "progress_of 3 2 = double (150119987579016525 / 2251799813685248)"
    by (simp add: progress_of_def double_two_thirds)
  also have "\<dots> = 2345624805922133 / 35184372088832"
    by (subst double_eval [of 6]) (simp_all add: round_half_even_def power_int_minus_divide)
  finally have two: "progress_of 3 2 = 2345624805922133 / 35184372088832" .
  have "progress_of 3 3 = 100"
    by (rule progress_of_all) simp
  with one two show ?thesis
    by simp
qed

lemma few_chunks:
  "length coordinates < 2 ^ 32 \<Longrightarrow> length (split_chunks 0 coordinates []) < 2 ^ 51"
proof -
  assume "length coordinates < 2 ^ 32"
  moreover have "(length coordinates + 99) div 100 \<le> length coordinates + 99"
    by (rule div_le_dividend)
  ultimately show ?thesis
    by (simp add: length_split_chunks)
qed

lemma example_chunks: "split_chunks 0 [(24, -126)] [] = [[(24, -126 :: rat) :: coord]]"
  by (simp add: split_chunks_step split_chunks_stop slice_def maxPointsPerRequest_def)

lemma example_run:
  "fetch_run 2 flaky example_manager [(24, -126)] quiet =
    (\<lparr>weatherData = [], apiKey = ''key'', processedChunks = 1,
      trace = [Fetch (request_url ''key'' [(24, -126)]), ConsoleError FetchFailed,
               Fetch (request_url ''key'' [(24, -126)]), UpdateProgress 100, SetTimeout 100]\<rparr>,
     [])"
  by (simp add: fetch_run_def example_chunks numeral_2_eq_2 try_chunk_def flaky_def
      quiet_def example_manager_def ok_def Let_def)

text \<open>
  C10, as stated, fails: it takes the callback to return. With one coordinate, a network
  that answers every request, and a callback whose first call throws, the first attempt
  reports 100 and throws, with \<open>processedChunks\<close> already 1; the chunk is requeued, and
  the second attempt reports 2 / 1 * 100 = 200. So a failed attempt has reported
  progress, a reported value exceeds 100, and the final value is not 100.
\<close>

theorem callback_throw_reports_200:
  "fetchData 2 always_empty example_manager [(24, -126)] throws_once =
     Some \<lparr>weatherData = [], apiKey = ''key'', processedChunks = 2,
            trace = [Fetch (request_url ''key'' [(24, -126)]), UpdateProgress 100,
                     ConsoleError CallbackError,
                     Fetch (request_url ''key'' [(24, -126)]), UpdateProgress 200,
                     SetTimeout 100]\<rparr> \<and>
   progress_values [Fetch (request_url ''key'' [(24, -126)]), UpdateProgress 100,
                    ConsoleError CallbackError,
                    Fetch (request_url ''key'' [(24, -126)]), UpdateProgress 200,
                    SetTimeout 100] = [100, 200] \<and>
   \<not> (200 :: rat) \<le> 100"
  by (simp add: fetchData_def fetch_run_def example_chunks numeral_2_eq_2 try_chunk_def
      always_empty_def throws_once_def example_manager_def ok_def Let_def)

text \<open>
  C10, amended. Let the callback return normally from every call (and let the
  coordinates be fewer than \<open>2^32\<close>, as the elements of a JavaScript array are). After
  any number of iterations, the values reported so far are \<open>k / totalChunks * 100\<close>, as
  the code computes it in doubles, for \<open>k = 1, ..., processedChunks\<close>, in this order, with
  \<open>processedChunks\<close> plus the number of chunks still to visit equal to
  \<open>totalChunks\<close>: the values increase strictly and none exceeds 100. When the loop has
  ended (and there was a chunk at all) the last value is 100. An attempt that throws
  reports nothing and leaves the counter as it is.
\<close>

theorem progress_reports:
  assumes "\<forall>k p. updateProgress k p = None"
    and "length coordinates < 2 ^ 32"
    and "fetch_run fuel net this coordinates updateProgress = (s, pending)"
  shows "progress_values (trace s) =
           map (progress_of (length (split_chunks 0 coordinates [])))
             [1..<Suc (processedChunks s)] \<and>
         processedChunks s + length pending = length (split_chunks 0 coordinates []) \<and>
         sorted_wrt (<) (progress_values (trace s)) \<and>
         (\<forall>p \<in> set (progress_values (trace s)). p \<le> 100) \<and>
         (pending = [] \<and> coordinates \<noteq> [] \<longrightarrow> last (progress_values (trace s)) = 100) \<and>
         (\<forall>s0 chunk s1 e.
            try_chunk net updateProgress (length (split_chunks 0 coordinates [])) s0 chunk
              = (s1, Some e)
            \<longrightarrow> progress_values (trace s1) = progress_values (trace s0) \<and>
                processedChunks s1 = processedChunks s0)"
proof -
  let ?n = "length (split_chunks 0 coordinates [])"
  have n51: "?n < 2 ^ 51"
    using assms(2) by (rule few_chunks)
  have inv: "processedChunks s + length pending = ?n \<and>
      progress_values (trace s) = map (progress_of ?n) [1..<Suc (processedChunks s)]"
    by (rule progress_invariant [OF assms(1) _ _ fetch_run_start [OF assms(3)]]) simp_all
  then have vals: "progress_values (trace s) =
      map (progress_of ?n) [1..<Suc (processedChunks s)]"
    and le: "processedChunks s \<le> ?n"
    by simp_all
  have "sorted_wrt (<) (map (progress_of ?n) [1..<Suc (processedChunks s)])"
  proof (rule sorted_wrt_map_mono [OF sorted_wrt_upt])
    fix i j
    assume "i \<in> set [1..<Suc (processedChunks s)]" and "j \<in> set [1..<Suc (processedChunks s)]"
      and "i < j"
    with le have "0 < i" and "j \<le> ?n"
      by auto
    with \<open>i < j\<close> show "progress_of ?n i < progress_of ?n j"
      using n51 by (intro progress_of_mono)
  qed
  then have sorted: "sorted_wrt (<) (progress_values (trace s))"
    by (simp only: vals)
  have bound: "\<forall>p \<in> set (progress_values (trace s)). p \<le> 100"
    using le by (auto simp: vals intro!: progress_of_le)
  have final: "pending = [] \<and> coordinates \<noteq> [] \<longrightarrow> last (progress_values (trace s)) = 100"
  proof (intro impI, elim conjE)
    assume "pending = []" and "coordinates \<noteq> []"
    then have "processedChunks s = ?n" and "0 < ?n"
      using inv by (cases coordinates; simp add: length_split_chunks div_greater_zero_iff)+
    then have "progress_values (trace s) =
        map (progress_of ?n) [1..<?n] @ [progress_of ?n ?n]"
      using vals by (simp add: Suc_le_eq)
    moreover have "progress_of ?n ?n = 100"
      using \<open>0 < ?n\<close> by (rule progress_of_all)
    ultimately show "last (progress_values (trace s)) = 100"
      by simp
  qed
  have failed: "\<forall>s0 chunk s1 e.
      try_chunk net updateProgress ?n s0 chunk = (s1, Some e)
      \<longrightarrow> progress_values (trace s1) = progress_values (trace s0) \<and>
          processedChunks s1 = processedChunks s0"
    using try_chunk_thrown_early [OF assms(1)] by (simp add: progress_values_append)
  from vals inv sorted bound final failed show ?thesis
    by blast
qed

theorem progress_reports_witness:
  "(\<forall>k p. quiet k p = None) \<and>
   length [(24, -126) :: coord] < 2 ^ 32 \<and>
   snd (fetch_run 2 flaky example_manager [(24, -126)] quiet) = [] \<and>
   [(24, -126)] \<noteq> ([] :: coord list) \<and>
   last (progress_values (trace (fst (fetch_run 2 flaky example_manager [(24, -126)] quiet)))) = 100 \<and>
   processedChunks (fst (fetch_run 2 flaky example_manager [(24, -126)] quiet)) = 1 \<and>
   sorted_wrt (<) (progress_values (trace (fst (fetch_run 2 flaky example_manager [(24, -126)] quiet))))"
proof -
  let ?r = "fetch_run 2 flaky example_manager [(24, -126)] quiet"
  have quiet: "\<forall>k p. quiet k p = None"
    by (simp add: quiet_def)
  have small: "length [(24, -126) :: coord] < 2 ^ 32"
    by simp
  have run: "?r = (fst ?r, snd ?r)"
    by simp
  have ended: "snd ?r = []"
    by (simp add: example_run)
  from progress_reports [OF quiet small run] ended quiet
  show ?thesis
    by (simp add: example_chunks progress_of_def)
qed

text \<open>
  C4, as the specification states it, fails. With a network whose first request is
  rejected, the console error of the failed attempt is followed at once by the next
  request: no timer runs between the two requests.
\<close>

theorem no_delay_after_failure:
  "trace (fst (fetch_run 2 flaky example_manager [(24, -126)] quiet)) =
     [Fetch (request_url ''key'' [(24, -126)]), ConsoleError FetchFailed,
      Fetch (request_url ''key'' [(24, -126)]), UpdateProgress 100, SetTimeout 100] \<and>
   \<not> delay_before_each_request (trace (fst (fetch_run 2 flaky example_manager [(24, -126)] quiet)))"
  by (simp add: example_run)

text \<open>
  C4, amended. Whatever the network and the callback do and however long the loop has
  run, the trace consists of attempts of these shapes: a request, the progress report
  and a timer of 100 ms (a chunk that succeeded), or a request, the progress report if
  the callback was reached, and a console error with no timer (a chunk that threw). With
  a callback that returns from every call there are the two shapes only: a request, the
  progress report and a timer of 100 ms, or a request and a console error with no
  timer. So the delay of 100 ms follows every chunk that succeeds, before the next
  request, and only those.
\<close>

theorem delay_after_success_only:
  "attempts_any (trace (fst (fetch_run fuel net this coordinates updateProgress))) \<and>
   ((\<forall>k p. updateProgress k p = None) \<longrightarrow>
      attempts_only (trace (fst (fetch_run fuel net this coordinates updateProgress))))"
proof
  show "attempts_any (trace (fst (fetch_run fuel net this coordinates updateProgress)))"
    unfolding fetch_run_def Let_def by (rule attempts_any_invariant) simp
  show "(\<forall>k p. updateProgress k p = None) \<longrightarrow>
      attempts_only (trace (fst (fetch_run fuel net this coordinates updateProgress)))"
  proof
    assume "\<forall>k p. updateProgress k p = None"
    then show "attempts_only (trace (fst (fetch_run fuel net this coordinates updateProgress)))"
      unfolding fetch_run_def Let_def by (rule attempts_invariant) simp
  qed
qed

theorem delay_after_success_only_witness:
  "(\<forall>k p. quiet k p = None) \<and>
   attempts_only [Fetch (request_url ''key'' [(24, -126)]), ConsoleError FetchFailed,
      Fetch (request_url ''key'' [(24, -126)]), UpdateProgress 100, SetTimeout 100]"
proof -
  have returns: "\<forall>k p. quiet k p = None"
    by (simp add: quiet_def)
  with delay_after_success_only [of 2 flaky example_manager "[(24, -126)]" quiet]
  have "attempts_only (trace (fst (fetch_run 2 flaky example_manager [(24, -126)] quiet)))"
    by blast
  then have "attempts_only [Fetch (request_url ''key'' [(24, -126)]), ConsoleError FetchFailed,
      Fetch (request_url ''key'' [(24, -126)]), UpdateProgress 100, SetTimeout 100]"
    by (simp only: example_run fst_conv fetch_state.simps)
  with returns show ?thesis
    by blast
qed






lemma ceiling_hundredth: "\<lceil>of_nat n / (100 :: rat)\<rceil> = int ((n + 99) div 100)"
proof (rule ceiling_unique)
  define z where "z = (n + 99) div 100"
  have "z * 100 + (n + 99) mod 100 = n + 99" and "(n + 99) mod 100 < 100"
    unfolding z_def by simp_all
  then have "n \<le> z * 100" and "z * 100 < n + 100"
    by linarith+
  then have "rat_of_nat n \<le> rat_of_nat (z * 100)" and "rat_of_nat (z * 100) < rat_of_nat (n + 100)"
    by (simp_all only: of_nat_le_iff of_nat_less_iff)
  then show "rat_of_int (int ((n + 99) div 100)) - 1 < rat_of_nat n / 100"
    and "rat_of_nat n / 100 \<le> rat_of_int (int ((n + 99) div 100))"
    by (simp_all add: z_def [symmetric] less_divide_eq divide_le_eq algebra_simps)
qed

lemma run_without_errors:
  assumes "\<forall>n url. \<not> throws (net n url)" and "\<forall>k p. updateProgress k p = None"
  shows "\<exists>s'. fetch_loop (length chunks) net updateProgress totalChunks s chunks = (s', []) \<and>
           filter is_Fetch (trace s') =
             filter is_Fetch (trace s) @ map (\<lambda>chunk. Fetch (request_url (apiKey s) chunk)) chunks"
proof (induction chunks arbitrary: s)
  case Nil
  then show ?case by simp
next
  case (Cons chunk rest)
  from assms have "snd (try_chunk net updateProgress totalChunks s chunk) = None"
    by (simp add: try_chunk_error)
  then obtain s1 where step: "try_chunk net updateProgress totalChunks s chunk = (s1, None)"
    by (cases "try_chunk net updateProgress totalChunks s chunk") auto
  from Cons.IH [of s1] obtain s' where
    "fetch_loop (length rest) net updateProgress totalChunks s1 rest = (s', [])"
    "filter is_Fetch (trace s') =
       filter is_Fetch (trace s1) @ map (\<lambda>chunk. Fetch (request_url (apiKey s1) chunk)) rest"
    by blast
  with step show ?case
    using try_chunk_done [OF step] by simp
qed

text \<open>
  C8. A list of \<open>N\<close> coordinates is split into exactly \<open>\<lceil>N / 100\<rceil>\<close> chunks, none
  empty and none longer than 100, which concatenated give the list back. When no attempt
  throws (no response makes the body of \<open>try\<close> throw, and the callback returns), a run
  of that many iterations ends, and the requests it has issued are those of the chunks,
  one each and in order: \<open>\<lceil>N / 100\<rceil>\<close> requests.
\<close>

theorem one_request_per_chunk:
  "int (length (split_chunks 0 coordinates [])) = \<lceil>of_nat (length coordinates) / (100 :: rat)\<rceil> \<and>
   (\<forall>chunk \<in> set (split_chunks 0 coordinates []). chunk \<noteq> [] \<and> length chunk \<le> 100) \<and>
   concat (split_chunks 0 coordinates []) = coordinates \<and>
   ((\<forall>n url. \<not> throws (net n url)) \<and> (\<forall>k p. updateProgress k p = None) \<longrightarrow>
      (\<exists>s. fetchData (length (split_chunks 0 coordinates [])) net this coordinates
             updateProgress = Some s \<and>
           filter is_Fetch (trace s) =
             map (\<lambda>chunk. Fetch (request_url (apiKey this) chunk)) (split_chunks 0 coordinates []) \<and>
           int (length (filter is_Fetch (trace s))) = \<lceil>of_nat (length coordinates) / (100 :: rat)\<rceil>))"
proof -
  let ?chunks = "split_chunks 0 coordinates []"
  have count: "int (length ?chunks) = \<lceil>of_nat (length coordinates) / (100 :: rat)\<rceil>"
    by (simp add: length_split_chunks ceiling_hundredth)
  have sizes: "\<forall>chunk \<in> set ?chunks. chunk \<noteq> [] \<and> length chunk \<le> 100"
    by (rule chunk_sizes) simp
  have parts: "concat ?chunks = coordinates"
    by (simp add: concat_split_chunks)
  have run: "\<exists>s. fetchData (length ?chunks) net this coordinates updateProgress = Some s \<and>
           filter is_Fetch (trace s) = map (\<lambda>chunk. Fetch (request_url (apiKey this) chunk)) ?chunks \<and>
           int (length (filter is_Fetch (trace s))) = \<lceil>of_nat (length coordinates) / (100 :: rat)\<rceil>"
    if quiet: "\<forall>n url. \<not> throws (net n url)" and returns: "\<forall>k p. updateProgress k p = None"
  proof -
    from run_without_errors [OF quiet returns, where chunks = ?chunks
        and totalChunks = "length ?chunks"
        and s = "\<lparr>weatherData = weatherData this, apiKey = apiKey this,
                   processedChunks = 0, trace = []\<rparr>"]
    obtain s where loop: "fetch_run (length ?chunks) net this coordinates updateProgress = (s, [])"
      and reqs: "filter is_Fetch (trace s) = map (\<lambda>chunk. Fetch (request_url (apiKey this) chunk)) ?chunks"
      by (auto simp: fetch_run_def Let_def)
    from reqs have "length (filter is_Fetch (trace s)) = length ?chunks"
      by simp
    with loop reqs count show ?thesis
      by (simp add: fetchData_def)
  qed
  from count sizes parts run show ?thesis
    by blast
qed

theorem one_request_per_chunk_witness:
  "(\<forall>n url. \<not> throws (always_empty n url)) \<and>
   (\<forall>k p. quiet k p = None) \<and>
   (\<exists>s. fetchData 1 always_empty example_manager [(24, -126)] quiet = Some s \<and>
        filter is_Fetch (trace s) = [Fetch (request_url ''key'' [(24, -126)])]) \<and>
   split_chunks 0 [(24, -126) :: coord] [] = [[(24, -126)]]"
proof -
  have answers: "\<forall>n url. \<not> throws (always_empty n url)"
    by (simp add: always_empty_def ok_def)
  have returns: "\<forall>k p. quiet k p = None"
    by (simp add: quiet_def)
  from one_request_per_chunk [where net = always_empty and this = example_manager
      and coordinates = "[(24, -126)]" and updateProgress = quiet]
    answers returns
  show ?thesis
    by (auto simp: example_chunks example_manager_def)
qed

lemma get_prop_member: "v \<noteq> JNull \<Longrightarrow> get_prop (Some v) name = Inr (member v name)"
  by (cases v) (simp_all add: member_def)

lemma truthy_member: "truthy (member v name) \<Longrightarrow> truthy (Some v)"
  by (cases v) (simp_all add: member_def)

lemma hourly_series_eq:
  "point \<noteq> JNull \<Longrightarrow>
   hourly_series point =
     Inr (case temperature_series point of
            None \<Rightarrow> None
          | Some t \<Rightarrow> if truthy (Some t) then Some t else None)"
proof -
  assume point: "point \<noteq> JNull"
  show ?thesis
  proof (cases "member point ''hourly''")
    case None
    with point show ?thesis
      by (simp add: hourly_series_def get_prop_member temperature_series_def)
  next
    case (Some hourly)
    show ?thesis
    proof (cases "truthy (Some hourly)")
      case True
      then have "hourly \<noteq> JNull"
        by auto
      with point Some True show ?thesis
        by (auto simp: hourly_series_def get_prop_member temperature_series_def split: option.splits)
    next
      case False
      then have "\<not> truthy (member hourly ''temperature_2m'')"
        using truthy_member by blast
      with point Some False show ?thesis
        by (auto simp: hourly_series_def get_prop_member temperature_series_def split: option.splits)
    qed
  qed
qed

lemma forEach_point_eq:
  "forEach_point chunk index points records =
    (records @ List.map_filter (record_at chunk)
                 (enumerate index (takeWhile (\<lambda>point. point \<noteq> JNull) points)),
     if JNull \<in> set points then Some TypeError else None)"
proof (induction points arbitrary: index records)
  case Nil
  then show ?case by simp
next
  case (Cons point points)
  show ?case
  proof (cases "point = JNull")
    case True
    then show ?thesis
      by (simp add: hourly_series_def)
  next
    case False
    then show ?thesis
      by (simp add: hourly_series_eq Cons.IH record_at_def
          split: option.splits)
  qed
qed

text \<open>
  C1, amended. When the response to a chunk is an array, the records appended to the
  accumulator are, in the order of the array, those of the elements before the first
  \<open>null\<close> whose \<open>hourly.temperature_2m\<close> is truthy (an empty array is), each with the
  coordinate at the element's index in the chunk, which is undefined when the response
  is longer than the chunk. The body of \<open>try\<close> completes if and only if no element is
  \<open>null\<close> and the progress callback, called once the array has been walked, returns.
\<close>

theorem records_for_truthy_series:
  assumes "net (length (filter is_Fetch (trace s))) (request_url (apiKey s) chunk) =
             Response status (Some (JArr points))"
    and "ok status"
  shows "weatherData (fst (try_chunk net updateProgress totalChunks s chunk)) =
           weatherData s @ List.map_filter (record_at chunk)
                            (enumerate 0 (takeWhile (\<lambda>point. point \<noteq> JNull) points)) \<and>
         (snd (try_chunk net updateProgress totalChunks s chunk) = None \<longleftrightarrow>
            JNull \<notin> set points \<and>
            updateProgress (length (filter is_UpdateProgress (trace s)))
              (progress_of totalChunks (Suc (processedChunks s))) = None)"
  using assms
  by (auto simp: try_chunk_def Let_def forEach_point_eq progress_of_def split: option.splits)

theorem records_for_truthy_series_witness:
  "mixed_response 0 (request_url ''key'' [(24, -126), (24, -503/4)]) =
     Response 200 (Some (JArr
      [JObj [(''hourly'', JObj [(''temperature_2m'', JArr [JNum 70, JNum 71])])],
       JObj [(''latitude'', JNum 24)],
       JObj [(''hourly'', JObj [(''temperature_2m'', JNull)])],
       JObj [(''hourly'', JObj [(''temperature_2m'', JArr [])])]])) \<and>
   ok 200 \<and>
   weatherData (fst (try_chunk mixed_response quiet 1
       \<lparr>weatherData = [], apiKey = ''key'', processedChunks = 0, trace = []\<rparr>
       [(24, -126), (24, -503/4)])) =
     [\<lparr>coords = Some (24, -126), temperatures = JArr [JNum 70, JNum 71]\<rparr>,
      \<lparr>coords = None, temperatures = JArr []\<rparr>]"
proof -
  have response: "mixed_response (length (filter is_Fetch (trace
        \<lparr>weatherData = [], apiKey = ''key'', processedChunks = 0, trace = []\<rparr>)))
      (request_url (apiKey \<lparr>weatherData = [], apiKey = ''key'', processedChunks = 0, trace = []\<rparr>)
        [(24, -126), (24, -503/4)]) =
     Response 200 (Some (JArr
      [JObj [(''hourly'', JObj [(''temperature_2m'', JArr [JNum 70, JNum 71])])],
       JObj [(''latitude'', JNum 24)],
       JObj [(''hourly'', JObj [(''temperature_2m'', JNull)])],
       JObj [(''hourly'', JObj [(''temperature_2m'', JArr [])])]]))"
    by (simp add: mixed_response_def)
  have ok: "ok 200"
    by (simp add: ok_def)
  from records_for_truthy_series [where net = mixed_response and totalChunks = 1
      and updateProgress = quiet
      and s = "\<lparr>weatherData = [], apiKey = ''key'', processedChunks = 0, trace = []\<rparr>"
      and chunk = "[(24, -126), (24, -503/4)]", OF response ok] ok
  show ?thesis
    by (simp add: mixed_response_def record_at_def
        temperature_series_def member_def at_index_def)
qed

text \<open>
  C1, as the specification states it, fails: an element whose
  \<open>hourly.temperature_2m\<close> is the empty array gets a record, since an empty array is
  truthy.
\<close>

theorem record_for_empty_series:
  "map_option weatherData (fetchData 1 empty_series example_manager [(24, -126)] quiet) =
     Some [\<lparr>coords = Some (24, -126), temperatures = JArr []\<rparr>] \<and>
   \<not> nonempty_array (JArr [])"
  by (simp add: fetchData_def fetch_run_def example_chunks try_chunk_def empty_series_def
      example_manager_def ok_def Let_def hourly_series_def at_index_def quiet_def)

section \<open>Properties of the renderer\<close>

lemma element_at_Inl: "element_at v hour = Inl e \<longleftrightarrow> v = JNull \<and> e = TypeError"
  by (cases v) auto

lemma forEach_record_geometry:
  assumes "map geometry rects1 = map geometry rects2"
  shows "map geometry (fst (forEach_record parse1 m hour1 w h points rects1)) =
         map geometry (fst (forEach_record parse2 m hour2 w h points rects2)) \<and>
         snd (forEach_record parse1 m hour1 w h points rects1) =
         snd (forEach_record parse2 m hour2 w h points rects2)"
  using assms
proof (induction points arbitrary: rects1 rects2)
  case Nil
  then show ?case by simp
next
  case (Cons point points)
  show ?case
  proof (cases "temperatures point = JNull")
    case True
    with Cons.prems show ?thesis by simp
  next
    case False
    then obtain temp1 temp2 where
      "element_at (temperatures point) hour1 = Inr temp1"
      "element_at (temperatures point) hour2 = Inr temp2"
      using element_at_Inl [of "temperatures point"]
      by (metis sum.exhaust)
    with Cons.prems Cons.IH show ?thesis
      by (cases "coords point") (simp_all add: Let_def geometry_def)
  qed
qed

text \<open>
  C5. For the same records and the same map, \<open>render\<close> with two hours fills the same
  number of rectangles, at the same positions and of the same sizes, in the same order;
  it throws for both hours or for neither, and leaves the canvas with the same size and
  position. Only the \<open>fillStyle\<close> of a rectangle can differ.
\<close>

theorem positions_independent_of_hour:
  "map geometry (filled (the_canvas (fst (render parse this data hour1)))) =
   map geometry (filled (the_canvas (fst (render parse this data hour2)))) \<and>
   snd (render parse this data hour1) = snd (render parse this data hour2) \<and>
   canvas_width (the_canvas (fst (render parse this data hour1))) =
     canvas_width (the_canvas (fst (render parse this data hour2))) \<and>
   canvas_height (the_canvas (fst (render parse this data hour1))) =
     canvas_height (the_canvas (fst (render parse this data hour2))) \<and>
   canvas_position (the_canvas (fst (render parse this data hour1))) =
     canvas_position (the_canvas (fst (render parse this data hour2)))"
proof -
  let ?m = "leaflet_map this"
  let ?w = "\<bar>fst (latLngToContainerPoint ?m (getNorth ?m - 1 / 2, getWest ?m + 1 / 2)) -
             fst (latLngToContainerPoint ?m (getNorth ?m, getWest ?m))\<bar>"
  let ?h = "\<bar>snd (latLngToContainerPoint ?m (getNorth ?m - 1 / 2, getWest ?m + 1 / 2)) -
             snd (latLngToContainerPoint ?m (getNorth ?m, getWest ?m))\<bar>"
  have "map geometry (fst (forEach_record parse ?m hour1 ?w ?h data [])) =
        map geometry (fst (forEach_record parse ?m hour2 ?w ?h data [])) \<and>
        snd (forEach_record parse ?m hour1 ?w ?h data []) =
        snd (forEach_record parse ?m hour2 ?w ?h data [])"
    by (rule forEach_record_geometry) simp
  then show ?thesis
    by (simp add: render_def draw_def updateCanvasSize_def Let_def case_prod_beta)
qed

theorem positions_independent_of_hour_witness:
  "map geometry (filled (the_canvas (fst (render (\<lambda>v. NaN) example_renderer example_records 0)))) =
     [(-5/2, 515/2, 5, 5)] \<and>
   map geometry (filled (the_canvas (fst (render (\<lambda>v. NaN) example_renderer example_records 1)))) =
     [(-5/2, 515/2, 5, 5)] \<and>
   map fillStyle (filled (the_canvas (fst (render (\<lambda>v. NaN) example_renderer example_records 0)))) =
     [Rgba 0 0 255 (4/5)] \<and>
   map fillStyle (filled (the_canvas (fst (render (\<lambda>v. NaN) example_renderer example_records 1)))) =
     [Rgba_join [139, 0, 0, 4/5]]"
proof -
  have "map geometry (filled (the_canvas (fst (render (\<lambda>v. NaN) example_renderer example_records 0)))) =
     [(-5/2, 515/2, 5, 5)]"
    by (simp add: render_def draw_def updateCanvasSize_def Let_def case_prod_beta example_renderer_def
        example_view_def example_records_def geometry_def at_index_def)
  moreover have "map fillStyle (filled (the_canvas (fst (render (\<lambda>v. NaN) example_renderer example_records 0)))) =
     [Rgba 0 0 255 (4/5)]"
    by (simp add: render_def draw_def updateCanvasSize_def Let_def case_prod_beta example_renderer_def
        example_view_def example_records_def at_index_def getTemperatureColor_def colorTable_def interpolate_def)
  moreover have "map fillStyle (filled (the_canvas (fst (render (\<lambda>v. NaN) example_renderer example_records 1)))) =
     [Rgba_join [139, 0, 0, 4/5]]"
    by (simp add: render_def draw_def updateCanvasSize_def Let_def case_prod_beta example_renderer_def
        example_view_def example_records_def at_index_def getTemperatureColor_def colorTable_def)
  ultimately show ?thesis
    using positions_independent_of_hour [of "\<lambda>v. NaN" example_renderer example_records 0 1]
    by simp
qed

section \<open>Properties of the grid generator\<close>

lemma quarter_step: "quarter x \<Longrightarrow> quarter (x + step)"
proof -
  assume "quarter x"
  then obtain k :: int where "x = of_int k / 4"
    by (auto simp: quarter_def)
  then have "x + step = of_int (k + 1) / 4"
    by (simp add: step_def add_divide_distrib)
  then show ?thesis
    unfolding quarter_def by blast
qed

lemma quarter_start: "quarter latStart" "quarter lonStart"
proof -
  have "latStart = of_int 96 / 4" and "lonStart = of_int (-504) / 4"
    by (simp_all add: latStart_def lonStart_def)
  then show "quarter latStart" "quarter lonStart"
    unfolding quarter_def by blast+
qed

lemma round_quarter: "quarter x \<Longrightarrow> Math_round (x * 10000) / 10000 = x"
proof -
  assume "quarter x"
  then obtain k :: int where x: "x = of_int k / 4"
    by (auto simp: quarter_def)
  then have "x * 10000 = of_int (k * 2500)"
    by simp
  moreover have "\<lfloor>rat_of_int (k * 2500) + 1 / 2\<rfloor> = k * 2500"
    by (rule floor_unique) simp_all
  ultimately have "Math_round (x * 10000) = of_int (k * 2500)"
    by (simp only: Math_round_def)
  then show ?thesis
    by (simp add: x)
qed

lemma keyed_append: "keyed grid seen \<Longrightarrow> coord_key p \<notin> seen \<Longrightarrow> keyed (grid @ [p]) (insert (coord_key p) seen)"
  by (auto simp: keyed_def)

lemma lon_loop_keyed:
  assumes "quarter lat" and "quarter lon" and "keyed (grid @ row) seen"
  shows "keyed (grid @ fst (lon_loop lat lon row seen)) (snd (lon_loop lat lon row seen))"
  using assms
proof (induction lat lon row seen rule: lon_loop.induct)
  case (1 lat lon row seen)
  show ?case
  proof (cases "lon \<le> lonEnd")
    case False
    with "1.prems" show ?thesis
      by (simp add: lon_loop.simps [of lat lon])
  next
    case True
    note next_lon = quarter_step [OF "1.prems"(2)]
    show ?thesis
    proof (cases "coord_key (lat, lon) \<in> seen")
      case True
      with \<open>lon \<le> lonEnd\<close> "1.IH"(2) [OF _ refl] "1.prems" next_lon show ?thesis
        by (simp add: lon_loop.simps [of lat lon])
    next
      case False
      let ?p = "(Math_round (lat * 10000) / 10000, Math_round (lon * 10000) / 10000)"
      have p: "?p = (lat, lon)"
        using "1.prems" by (simp add: round_quarter)
      with False "1.prems"(3) have "keyed (grid @ row @ [?p]) (insert (coord_key (lat, lon)) seen)"
        using keyed_append [of "grid @ row" seen "(lat, lon)"] by simp
      with \<open>lon \<le> lonEnd\<close> False "1.IH"(1) [OF _ refl] "1.prems"(1) next_lon show ?thesis
        by (simp add: lon_loop.simps [of lat lon])
    qed
  qed
qed

lemma keyed_sorted: "keyed (grid @ row) seen \<Longrightarrow> keyed (grid @ sort_key snd row) seen"
  by (simp add: keyed_def distinct_map inj_on_def)

lemma lat_loop_keyed:
  assumes "quarter lat" and "keyed grid seen"
  shows "keyed (fst (lat_loop lat grid seen)) (snd (lat_loop lat grid seen))"
  using assms
proof (induction lat grid seen rule: lat_loop.induct)
  case (1 lat grid seen)
  show ?case
  proof (cases "lat \<le> latEnd")
    case False
    with "1.prems" show ?thesis
      by (simp add: lat_loop.simps [of lat])
  next
    case True
    obtain row seen' where row: "lon_loop lat lonStart [] seen = (row, seen')"
      by (cases "lon_loop lat lonStart [] seen")
    have "keyed (grid @ row) seen'"
      using lon_loop_keyed [of lat lonStart grid "[]" seen] "1.prems" quarter_start(2) row
      by simp
    then have "keyed (grid @ sort_key snd row) seen'"
      by (rule keyed_sorted)
    from "1.IH" [OF True row [symmetric] quarter_step [OF "1.prems"(1)] this] True row
    show ?thesis
      by (simp add: lat_loop.simps [of lat])
  qed
qed

lemma add_extra_keyed:
  "keyed (fst gs) (snd gs) \<Longrightarrow>
   keyed (fst (add_extra gs p)) (snd (add_extra gs p)) \<and>
   coord_key p \<in> snd (add_extra gs p) \<and> snd gs \<subseteq> snd (add_extra gs p)"
  by (auto simp: add_extra_def Let_def keyed_def)

lemma extras_keyed:
  "keyed (fst gs) (snd gs) \<Longrightarrow>
   keyed (fst (foldl add_extra gs ps)) (snd (foldl add_extra gs ps)) \<and>
   coord_key ` set ps \<subseteq> snd (foldl add_extra gs ps) \<and> snd gs \<subseteq> snd (foldl add_extra gs ps)"
proof (induction ps arbitrary: gs)
  case Nil
  then show ?case by simp
next
  case (Cons p ps)
  from add_extra_keyed [OF Cons.prems, of p]
  have step: "keyed (fst (add_extra gs p)) (snd (add_extra gs p))"
    and p: "coord_key p \<in> snd (add_extra gs p)" and mono: "snd gs \<subseteq> snd (add_extra gs p)"
    by simp_all
  from Cons.IH [OF step] p mono show ?case
    by auto
qed

lemma once_by_key:
  "distinct (map f xs) \<Longrightarrow> y \<in> f ` set xs \<Longrightarrow> length (filter (\<lambda>x. f x = y) xs) = 1"
proof (induction xs)
  case Nil
  then show ?case by simp
next
  case (Cons x xs)
  show ?case
  proof (cases "f x = y")
    case True
    with Cons.prems have "y \<notin> f ` set xs"
      by simp
    then have "\<forall>x' \<in> set xs. f x' \<noteq> y"
      by blast
    then have "filter (\<lambda>x. f x = y) xs = []"
      by (simp add: filter_empty_conv)
    with True show ?thesis by simp
  next
    case False
    with Cons show ?thesis by auto
  qed
qed

text \<open>
  C9. For each of the 14 extra points, exactly one point of the generated grid has its
  key (the two coordinates printed with four decimals): the point is appended only when
  no earlier point has the key, and then once.
\<close>

theorem extra_points_once:
  assumes "point \<in> set extraPoints"
  shows "length (filter (\<lambda>q. coord_key q = coord_key point) generateOptimizedGrid) = 1"
proof -
  let ?primary = "lat_loop latStart [] {}"
  have "keyed (fst ?primary) (snd ?primary)"
    by (rule lat_loop_keyed [OF quarter_start(1)]) (simp add: keyed_def)
  from extras_keyed [OF this, of extraPoints] assms
  have "distinct (map coord_key generateOptimizedGrid)"
    and "coord_key point \<in> coord_key ` set generateOptimizedGrid"
    by (auto simp: generateOptimizedGrid_def keyed_def)
  then show ?thesis
    by (rule once_by_key)
qed

theorem extra_points_once_witness:
  "(91/2, -87) \<in> set extraPoints \<and>
   length (filter (\<lambda>q. coord_key q = coord_key (91/2, -87)) generateOptimizedGrid) = 1"
proof -
  have h: "(91/2, -87) \<in> set extraPoints"
    by (simp add: extraPoints_def)
  from extra_points_once [OF h] h show ?thesis
    by blast
qed

end
